theory Spec2Isabelle
  imports Complex_Main "HOL-Library.Word" "HOL-Library.Log_Nat"
    "HOL-Library.Char_ord" "HOL-Library.List_Lexorder"
begin

unbundle bit_operations_syntax

section \<open>Variant resolver (attentionDecode.js)\<close>

text \<open>
  The requested precision is an arbitrary JavaScript string: a list of UTF-16 code units.
  The strings of the manifest (keys, file references, \<open>dtype\<close>, \<open>encoding\<close>) and the names
  the code compares with are strings of characters below 256; \<open>js\<close> gives their code units.
\<close>

type_synonym jsstring = "16 word list"

definition js :: "string \<Rightarrow> jsstring" where
  "js s = map of_char s"

text \<open>
  \<open>String.prototype.trim\<close> strips the \<open>WhiteSpace\<close> and \<open>LineTerminator\<close> code points from both
  ends: tab, line feed, vertical tab, form feed, carriage return, space, U+00A0, U+1680,
  U+2000 to U+200A, U+2028, U+2029, U+202F, U+205F, U+3000 and U+FEFF.
\<close>

definition is_space :: "16 word \<Rightarrow> bool" where
  "is_space c =
     (c \<in> {0x09, 0x0A, 0x0B, 0x0C, 0x0D, 0x20, 0xA0, 0x1680,
            0x2000, 0x2001, 0x2002, 0x2003, 0x2004, 0x2005, 0x2006, 0x2007, 0x2008, 0x2009,
            0x200A, 0x2028, 0x2029, 0x202F, 0x205F, 0x3000, 0xFEFF})"

definition trim :: "jsstring \<Rightarrow> jsstring" where
  "trim s = rev (dropWhile is_space (rev (dropWhile is_space s)))"

text \<open>
  \<open>String.prototype.toLowerCase\<close>. The capitals \<open>A\<close> to \<open>Z\<close> become \<open>a\<close> to \<open>z\<close>, the KELVIN
  SIGN U+212A becomes \<open>k\<close> and U+0130 becomes \<open>i\<close> followed by U+0307. These are the only
  code points whose lower case contains a code unit below 128; any other code unit outside
  ASCII is mapped by the Unicode tables to code units outside ASCII, and the model leaves
  it as it is. The code only compares lower-cased strings with ASCII names, and the two
  agree on whether the result is a given ASCII string.
\<close>

definition lower_unit :: "16 word \<Rightarrow> jsstring" where
  "lower_unit c =
     (if 0x41 \<le> c \<and> c \<le> 0x5A then [c + 0x20]
      else if c = 0x212A then [0x6B]
      else if c = 0x130 then [0x69, 0x307]
      else [c])"

definition toLowerCase :: "jsstring \<Rightarrow> jsstring" where
  "toLowerCase s = concat (map lower_unit s)"

text \<open>
  \<open>value\<close> is \<open>None\<close> for \<open>null\<close>/\<open>undefined\<close>; these and the empty string are falsy,
  so \<open>value || "auto"\<close> replaces them.
\<close>

definition normalizePrecision :: "jsstring option \<Rightarrow> string" where
  "normalizePrecision v =
     (let raw = toLowerCase (trim (case v of None \<Rightarrow> js ''auto''
                                   | Some s \<Rightarrow> if s = [] then js ''auto'' else s))
      in if raw = js ''auto'' then ''auto''
         else if raw = js ''fp32'' \<or> raw = js ''float32'' then ''fp32''
         else if raw = js ''int8'' \<or> raw = js ''int8_phs_v1'' then ''int8''
         else if raw = js ''int4'' \<or> raw = js ''int4_phq_v1'' then ''int4''
         else ''auto'')"

text \<open>
  A variant descriptor of the manifest, with its fields \<open>file\<close>, \<open>scale_file\<close>,
  \<open>dtype\<close> and \<open>encoding\<close>. A missing field is \<open>None\<close>.
\<close>

record variant =
  v_file :: "string option"
  v_scale_file :: "string option"
  v_dtype :: "string option"
  v_encoding :: "string option"

text \<open>
  The fields of the scene manifest the resolver reads. \<open>attn_variants\<close> is \<open>None\<close> when
  the field is missing, \<open>null\<close> or not an object; otherwise it is a plain object, as parsed
  from the JSON manifest, and the map holds its own properties, each a variant object
  (truthy). \<open>attn_precision_default\<close> is \<open>metadata.attn_precision_default\<close> when that is a
  string. \<open>attn_weights_shape\<close> is the array of that name, of natural numbers, when it is
  present.
\<close>

record scene_json =
  attn_variants :: "(string \<rightharpoonup> variant) option"
  attn_weights_file :: "string option"
  attn_precision_default :: "string option"
  attn_weights_shape :: "nat list option"

datatype resolve_error =
    NoVariantsProvided string
  | NoAttentionReference
  | NoUsableVariants
  | RequestedVariantMissing string
  | VariantUnavailable string

record resolved =
  key :: string
  variant :: variant
  fallbackUsed :: bool
  requested :: string

text \<open>
  A property read \<open>variants[k]\<close>. The variants object is a plain object, so a key that is
  not one of its own properties is looked up in \<open>Object.prototype\<close>. The members found
  there (functions, and \<open>Object.prototype\<close> itself for \<open>__proto__\<close>) are truthy and have none
  of the properties \<open>file\<close>, \<open>scale_file\<close>, \<open>dtype\<close>, \<open>encoding\<close>: for the code that reads
  them they are a variant without fields.
\<close>

definition object_prototype_members :: "string list" where
  "object_prototype_members =
     [''constructor'', ''hasOwnProperty'', ''isPrototypeOf'', ''propertyIsEnumerable'',
      ''toLocaleString'', ''toString'', ''valueOf'', ''__proto__'',
      ''__defineGetter__'', ''__defineSetter__'', ''__lookupGetter__'', ''__lookupSetter__'']"

definition get_property :: "(string \<rightharpoonup> variant) \<Rightarrow> string \<Rightarrow> variant option" where
  "get_property obj k =
     (case obj k of
        Some v \<Rightarrow> Some v
      | None \<Rightarrow>
          if k \<in> set object_prototype_members
          then Some \<lparr>v_file = None, v_scale_file = None, v_dtype = None, v_encoding = None\<rparr>
          else None)"

definition toVariantKey :: "string \<Rightarrow> scene_json \<Rightarrow> string" where
  "toVariantKey req sceneJson =
     (if req = ''fp32'' then ''fp32''
      else if req = ''int8'' then ''int8_phs_v1''
      else if req = ''int4'' then ''int4_phq_v1''
      else
        let variants = (case attn_variants sceneJson of None \<Rightarrow> Map.empty | Some m \<Rightarrow> m);
            preferred = (case attn_precision_default sceneJson of None \<Rightarrow> [] | Some s \<Rightarrow> s)
        in if preferred \<noteq> [] \<and> get_property variants preferred \<noteq> None then preferred
           else if get_property variants ''int4_phq_v1'' \<noteq> None then ''int4_phq_v1''
           else if get_property variants ''int8_phs_v1'' \<noteq> None then ''int8_phs_v1''
           else if get_property variants ''fp32'' \<noteq> None then ''fp32''
           else [])"

definition buildLegacyFp32Variant :: "scene_json \<Rightarrow> variant option" where
  "buildLegacyFp32Variant sceneJson =
     (case attn_weights_file sceneJson of
        None \<Rightarrow> None
      | Some f \<Rightarrow> if f = [] then None
                 else Some \<lparr>v_file = Some f, v_scale_file = None,
                            v_dtype = Some ''float32'', v_encoding = Some ''raw''\<rparr>)"

definition resolveAttentionVariant :: "scene_json \<Rightarrow> jsstring option \<Rightarrow> resolve_error + resolved" where
  "resolveAttentionVariant sceneJson urlPrecision =
     (let req = normalizePrecision urlPrecision in
      case attn_variants sceneJson of
        None \<Rightarrow>
          if req = ''int8'' \<or> req = ''int4'' then Inl (NoVariantsProvided req)
          else (case buildLegacyFp32Variant sceneJson of
                  None \<Rightarrow> Inl NoAttentionReference
                | Some legacy \<Rightarrow>
                    Inr \<lparr>key = ''fp32'', variant = legacy,
                         fallbackUsed = (req \<noteq> ''auto''), requested = req\<rparr>)
      | Some variants \<Rightarrow>
          let k = toVariantKey req sceneJson in
          if k = [] then
            (case buildLegacyFp32Variant sceneJson of
               None \<Rightarrow> Inl NoUsableVariants
             | Some legacy \<Rightarrow>
                 Inr \<lparr>key = ''fp32'', variant = legacy,
                      fallbackUsed = (req \<noteq> ''auto''), requested = req\<rparr>)
          else
            (case get_property variants k of
               None \<Rightarrow>
                 if req = ''int8'' \<or> req = ''int4'' then Inl (RequestedVariantMissing req)
                 else (case (case get_property variants ''fp32'' of
                               Some v \<Rightarrow> Some v
                             | None \<Rightarrow> buildLegacyFp32Variant sceneJson) of
                         None \<Rightarrow> Inl (VariantUnavailable k)
                       | Some fallback \<Rightarrow>
                           Inr \<lparr>key = ''fp32'', variant = fallback,
                                fallbackUsed = True, requested = req\<rparr>)
             | Some v \<Rightarrow>
                 Inr \<lparr>key = k, variant = v,
                      fallbackUsed = ((req = ''int8'' \<and> k \<noteq> ''int8_phs_v1'')
                                      \<or> (req = ''int4'' \<and> k \<noteq> ''int4_phq_v1'')),
                      requested = req\<rparr>))"

section \<open>JavaScript numbers\<close>

text \<open>
  A JavaScript number is an IEEE 754 binary64 value: a finite double (a rational), one of
  the two infinities, or NaN. The model has a single zero: \<open>-0\<close> and \<open>+0\<close> are equal under
  \<open>===\<close>, and the code modelled here divides only by counts, which are never \<open>-0\<close>.
  Every arithmetic operation computes the exact result and rounds it to the nearest double,
  ties to even, as IEEE 754 prescribes; storing a number into a \<open>Float32Array\<close> rounds it
  again, to the nearest binary32 value.
\<close>

datatype jsnum = Fin rat | PInf | NInf | NaN

definition pow2 :: "int \<Rightarrow> rat" where
  "pow2 e = (if 0 \<le> e then 2 ^ nat e else 1 / 2 ^ nat (- e))"

text \<open>The exponent of a positive rational \<open>x\<close>: the \<open>e\<close> with \<open>2^e \<le> x < 2^(e+1)\<close>.\<close>

definition floor_log2 :: "rat \<Rightarrow> int" where
  "floor_log2 x =
     (let (a, b) = quotient_of x; d = bitlen a - bitlen b
      in if of_int b * pow2 d \<le> of_int a then d else d - 1)"

definition round_half_even :: "rat \<Rightarrow> int" where
  "round_half_even x =
     (let f = \<lfloor>x\<rfloor>; r = x - of_int f
      in if r < 1 / 2 then f
         else if 1 / 2 < r then f + 1
         else if even f then f else f + 1)"

text \<open>
  Rounding to a binary format with \<open>p\<close> significand bits and exponents \<open>emin .. emax\<close>:
  the unit in the last place is \<open>2^(e - p + 1)\<close> for the exponent \<open>e\<close> of \<open>x\<close>, not below
  \<open>emin\<close> (gradual underflow); a rounded value whose exponent exceeds \<open>emax\<close> is an
  infinity.
\<close>

definition round_to_format :: "nat \<Rightarrow> int \<Rightarrow> int \<Rightarrow> rat \<Rightarrow> jsnum" where
  "round_to_format p emin emax x =
     (if x = 0 then Fin 0
      else
        let e = max (floor_log2 \<bar>x\<bar>) emin;
            u = pow2 (e - int p + 1);
            y = of_int (round_half_even (x / u)) * u
        in if y \<noteq> 0 \<and> emax < floor_log2 \<bar>y\<bar> then (if 0 < x then PInf else NInf)
           else Fin y)"

definition to_double :: "rat \<Rightarrow> jsnum" where
  "to_double = round_to_format 53 (- 1022) 1023"

definition to_float32 :: "rat \<Rightarrow> jsnum" where
  "to_float32 = round_to_format 24 (- 126) 127"

text \<open>\<open>Math.fround\<close>, the conversion applied by a store into a \<open>Float32Array\<close>.\<close>

fun fround :: "jsnum \<Rightarrow> jsnum" where
  "fround (Fin x) = to_float32 x"
| "fround v = v"

fun jsadd :: "jsnum \<Rightarrow> jsnum \<Rightarrow> jsnum" where
  "jsadd (Fin a) (Fin b) = to_double (a + b)"
| "jsadd NaN _ = NaN"
| "jsadd _ NaN = NaN"
| "jsadd PInf NInf = NaN"
| "jsadd NInf PInf = NaN"
| "jsadd PInf _ = PInf"
| "jsadd NInf _ = NInf"
| "jsadd _ PInf = PInf"
| "jsadd _ NInf = NInf"

definition signed_inf :: "bool \<Rightarrow> jsnum" where
  "signed_inf positive = (if positive then PInf else NInf)"

fun jsmul :: "jsnum \<Rightarrow> jsnum \<Rightarrow> jsnum" where
  "jsmul (Fin a) (Fin b) = to_double (a * b)"
| "jsmul NaN _ = NaN"
| "jsmul _ NaN = NaN"
| "jsmul (Fin a) PInf = (if a = 0 then NaN else signed_inf (0 < a))"
| "jsmul (Fin a) NInf = (if a = 0 then NaN else signed_inf (a < 0))"
| "jsmul PInf (Fin b) = (if b = 0 then NaN else signed_inf (0 < b))"
| "jsmul NInf (Fin b) = (if b = 0 then NaN else signed_inf (b < 0))"
| "jsmul PInf PInf = PInf"
| "jsmul NInf NInf = PInf"
| "jsmul PInf NInf = NInf"
| "jsmul NInf PInf = NInf"

text \<open>Division; a zero divisor is \<open>+0\<close>.\<close>

fun jsdiv :: "jsnum \<Rightarrow> jsnum \<Rightarrow> jsnum" where
  "jsdiv (Fin a) (Fin b) =
     (if b = 0 then (if a = 0 then NaN else signed_inf (0 < a)) else to_double (a / b))"
| "jsdiv NaN _ = NaN"
| "jsdiv _ NaN = NaN"
| "jsdiv (Fin a) _ = Fin 0"
| "jsdiv PInf (Fin b) = signed_inf (0 \<le> b)"
| "jsdiv NInf (Fin b) = signed_inf (b < 0)"
| "jsdiv _ _ = NaN"

text \<open>\<open>Math.max\<close> of two numbers: NaN if either is NaN.\<close>

fun jsmax :: "jsnum \<Rightarrow> jsnum \<Rightarrow> jsnum" where
  "jsmax NaN _ = NaN"
| "jsmax _ NaN = NaN"
| "jsmax PInf _ = PInf"
| "jsmax _ PInf = PInf"
| "jsmax NInf b = b"
| "jsmax a NInf = a"
| "jsmax (Fin a) (Fin b) = Fin (max a b)"

text \<open>An integer or a count as a number (exact below \<open>2^53\<close>).\<close>

definition js_of_int :: "int \<Rightarrow> jsnum" where
  "js_of_int n = Fin (of_int n)"

definition js_of_nat :: "nat \<Rightarrow> jsnum" where
  "js_of_nat n = Fin (of_nat n)"

text \<open>
  \<open>ToInt32\<close>, applied by the bitwise operators to their operands: reduction modulo \<open>2^32\<close>
  into \<open>[-2^31, 2^31)\<close>.
\<close>

definition to_int32 :: "int \<Rightarrow> int" where
  "to_int32 n = (n + 2 ^ 31) mod 2 ^ 32 - 2 ^ 31"

subsection \<open>Typed-array views of a fetched buffer\<close>

text \<open>
  A fetched \<open>ArrayBuffer\<close> is a list of bytes. \<open>new Uint8Array(buffer)\<close> is the list itself,
  \<open>new Int8Array(buffer)\<close> reads each byte as a two's-complement value, and
  \<open>new Float32Array(buffer)\<close> reads every four bytes as a little-endian binary32 value; it
  throws a \<open>RangeError\<close> when the byte length is not a multiple of four. The 32-bit pattern
  of an element is an integer in \<open>[0, 2^32)\<close>: sign bit, eight exponent bits, 23
  fraction bits.
\<close>

type_synonym buffer = "8 word list"

definition f32_val :: "int \<Rightarrow> jsnum" where
  "f32_val w =
     (let s = (w div 2 ^ 31 = 1);
          e = (w div 2 ^ 23) mod 2 ^ 8;
          m = w mod 2 ^ 23;
          sg = (if s then - 1 else 1 :: rat)
      in if e = 255 then (if m = 0 then signed_inf (\<not> s) else NaN)
         else if e = 0 then Fin (sg * of_int m * pow2 (- 149))
         else Fin (sg * of_int (2 ^ 23 + m) * pow2 (e - 150)))"

definition le32 :: "8 word \<Rightarrow> 8 word \<Rightarrow> 8 word \<Rightarrow> 8 word \<Rightarrow> int" where
  "le32 b0 b1 b2 b3 = uint b0 + 2 ^ 8 * uint b1 + 2 ^ 16 * uint b2 + 2 ^ 24 * uint b3"

fun f32_elems :: "buffer \<Rightarrow> jsnum list" where
  "f32_elems (b0 # b1 # b2 # b3 # bs) = f32_val (le32 b0 b1 b2 b3) # f32_elems bs"
| "f32_elems _ = []"

section \<open>Quantized tensor decoder (attentionDecode.js)\<close>

datatype decode_error =
    InvalidShape
  | Unresolved resolve_error
  | MissingFilePath
  | UnsupportedEncoding
  | FetchFailed
  | RangeError
  | BatchSizeUnsupported nat
  | SizeMismatch nat nat
  | ScalesSizeMismatch nat nat

definition Float32Array_of :: "buffer \<Rightarrow> decode_error + jsnum list" where
  "Float32Array_of buf = (if length buf mod 4 \<noteq> 0 then Inl RangeError else Inr (f32_elems buf))"

definition ensureShape :: "scene_json \<Rightarrow> decode_error + nat list" where
  "ensureShape sceneJson =
     (case attn_weights_shape sceneJson of
        None \<Rightarrow> Inl InvalidShape
      | Some shp \<Rightarrow> if length shp \<noteq> 4 then Inl InvalidShape else Inr shp)"

definition prod_js :: "nat list \<Rightarrow> nat" where
  "prod_js nums = foldl (\<lambda>a b. a * b) 1 nums"

text \<open>
  The network is a parameter: \<open>fetch f\<close> is the body obtained for the file reference \<open>f\<close>
  resolved against the manifest URL, and \<open>None\<close> when the request fails or the response is
  not OK, in which case \<open>fetchArrayBufferOrThrow\<close> throws. A file reference that is
  missing or empty is falsy.
\<close>

definition fetchArrayBufferOrThrow :: "(string \<Rightarrow> buffer option) \<Rightarrow> string \<Rightarrow> decode_error + buffer" where
  "fetchArrayBufferOrThrow fetch url = (case fetch url of None \<Rightarrow> Inl FetchFailed | Some b \<Rightarrow> Inr b)"

definition falsy :: "string option \<Rightarrow> bool" where
  "falsy s = (s = None \<or> s = Some [])"

definition loadRawFp32 ::
  "(string \<Rightarrow> buffer option) \<Rightarrow> variant \<Rightarrow> nat \<times> nat \<times> nat \<times> nat \<Rightarrow> decode_error + jsnum list" where
  "loadRawFp32 fetch vnt shp =
     (case shp of (b, h, qDim, kDim) \<Rightarrow>
      if falsy (v_file vnt) then Inl MissingFilePath
      else case fetchArrayBufferOrThrow fetch (the (v_file vnt)) of
        Inl e \<Rightarrow> Inl e
      | Inr buffer \<Rightarrow>
         (case Float32Array_of buffer of
            Inl e \<Rightarrow> Inl e
          | Inr out \<Rightarrow>
              let expected = prod_js [b, h, qDim, kDim]
              in if length out \<noteq> expected then Inl (SizeMismatch (length out) expected)
                 else Inr out))"

text \<open>
  The two fetches of the quantized loaders run under \<open>Promise.all\<close>: the loader throws when
  either fails.
\<close>

definition fetchBoth ::
  "(string \<Rightarrow> buffer option) \<Rightarrow> string \<Rightarrow> string \<Rightarrow> decode_error + buffer \<times> buffer" where
  "fetchBoth fetch qUrl sUrl =
     (case fetchArrayBufferOrThrow fetch qUrl of
        Inl e \<Rightarrow> Inl e
      | Inr qBuffer \<Rightarrow>
         (case fetchArrayBufferOrThrow fetch sUrl of
            Inl e \<Rightarrow> Inl e
          | Inr sBuffer \<Rightarrow> Inr (qBuffer, sBuffer)))"

text \<open>
  An element of \<open>new Int8Array(qBuffer)\<close>. The loops below run after the size checks, so
  their reads \<open>q[base + i]\<close> and \<open>scales[head]\<close> are inside the arrays; a write to an index
  outside a typed array would be ignored, as \<open>out[i := v]\<close> is.
\<close>

definition int8At :: "buffer \<Rightarrow> nat \<Rightarrow> int" where
  "int8At q i = sint (q ! i)"

definition int8_head_loop :: "buffer \<Rightarrow> jsnum list \<Rightarrow> nat \<Rightarrow> nat \<Rightarrow> jsnum list \<Rightarrow> jsnum list" where
  "int8_head_loop q scales headStride head out =
     (let scale = scales ! head; base = head * headStride
      in fold (\<lambda>i out. out[base + i := fround (jsmul (js_of_int (int8At q (base + i))) scale)])
           [0..<headStride] out)"

definition loadInt8PerHead ::
  "(string \<Rightarrow> buffer option) \<Rightarrow> variant \<Rightarrow> nat \<times> nat \<times> nat \<times> nat \<Rightarrow> decode_error + jsnum list" where
  "loadInt8PerHead fetch vnt shp =
     (case shp of (b, h, qDim, kDim) \<Rightarrow>
      if falsy (v_file vnt) \<or> falsy (v_scale_file vnt) then Inl MissingFilePath
      else if v_encoding vnt \<noteq> Some ''symmetric_per_head'' then Inl UnsupportedEncoding
      else case fetchBoth fetch (the (v_file vnt)) (the (v_scale_file vnt)) of
        Inl e \<Rightarrow> Inl e
      | Inr (q, sBuffer) \<Rightarrow>
         (case Float32Array_of sBuffer of
            Inl e \<Rightarrow> Inl e
          | Inr scales \<Rightarrow>
              if b \<noteq> 1 then Inl (BatchSizeUnsupported b)
              else
                let expectedValues = b * h * qDim * kDim in
                if length q \<noteq> expectedValues then Inl (SizeMismatch (length q) expectedValues)
                else
                  let expectedScales = h in
                  if length scales \<noteq> expectedScales
                  then Inl (ScalesSizeMismatch (length scales) expectedScales)
                  else
                    let out = replicate expectedValues (Fin 0);
                        headStride = qDim * kDim
                    in Inr (fold (int8_head_loop q scales headStride) [0..<h] out)))"

text \<open>
  \<open>nibbleToSigned\<close> and \<open>int4At\<close>. The nibble is an 8-bit word; \<open>value - 16\<close> is number
  arithmetic. The operators \<open>>>\<close> and \<open>&\<close> convert the index with \<open>ToInt32\<close>; a read outside
  the packed array is \<open>undefined\<close>, which the bitwise operators take as 0.
\<close>

definition nibbleToSigned :: "8 word \<Rightarrow> int" where
  "nibbleToSigned v = (if v AND 0x08 \<noteq> 0 then uint v - 16 else uint v)"

definition int4At :: "buffer \<Rightarrow> nat \<Rightarrow> int" where
  "int4At packed index =
     (let j = to_int32 (int index) div 2;
          byte = (if 0 \<le> j \<and> nat j < length packed then packed ! nat j else 0)
      in if to_int32 (int index) mod 2 = 0 then nibbleToSigned (byte AND 0x0F)
         else nibbleToSigned (drop_bit 4 byte AND 0x0F))"

definition int4_k_loop :: "buffer \<Rightarrow> jsnum \<Rightarrow> nat \<Rightarrow> nat \<Rightarrow> jsnum list \<Rightarrow> jsnum list" where
  "int4_k_loop packed scale base kDim out =
     fold (\<lambda>k out. let idx = base + k
                   in out[idx := fround (jsmul (js_of_int (int4At packed idx)) scale)])
       [0..<kDim] out"

definition int4_q_loop :: "buffer \<Rightarrow> jsnum list \<Rightarrow> nat \<Rightarrow> nat \<Rightarrow> nat \<Rightarrow> jsnum list \<Rightarrow> jsnum list" where
  "int4_q_loop packed scales qDim kDim head out =
     fold (\<lambda>q out. let scale = scales ! (head * qDim + q);
                       base = (head * qDim + q) * kDim
                   in int4_k_loop packed scale base kDim out)
       [0..<qDim] out"

definition loadInt4Packed ::
  "(string \<Rightarrow> buffer option) \<Rightarrow> variant \<Rightarrow> nat \<times> nat \<times> nat \<times> nat \<Rightarrow> decode_error + jsnum list" where
  "loadInt4Packed fetch vnt shp =
     (case shp of (b, h, qDim, kDim) \<Rightarrow>
      if falsy (v_file vnt) \<or> falsy (v_scale_file vnt) then Inl MissingFilePath
      else case fetchBoth fetch (the (v_file vnt)) (the (v_scale_file vnt)) of
        Inl e \<Rightarrow> Inl e
      | Inr (packed, sBuffer) \<Rightarrow>
         (case Float32Array_of sBuffer of
            Inl e \<Rightarrow> Inl e
          | Inr scales \<Rightarrow>
              if b \<noteq> 1 then Inl (BatchSizeUnsupported b)
              else
                let expectedValues = b * h * qDim * kDim;
                    expectedPacked = (expectedValues + 1) div 2 in
                if length packed \<noteq> expectedPacked
                then Inl (SizeMismatch (length packed) expectedPacked)
                else
                  let expectedScales = h * qDim in
                  if length scales \<noteq> expectedScales
                  then Inl (ScalesSizeMismatch (length scales) expectedScales)
                  else
                    let out = replicate expectedValues (Fin 0)
                    in Inr (fold (int4_q_loop packed scales qDim kDim) [0..<h] out)))"

record loaded =
  float32 :: "jsnum list"
  shape :: "nat list"
  selectedPrecision :: string
  l_fallbackUsed :: bool
  requestedPrecision :: string

definition lower_or_empty :: "string option \<Rightarrow> jsstring" where
  "lower_or_empty s = toLowerCase (js (case s of None \<Rightarrow> [] | Some x \<Rightarrow> x))"

definition loadAttentionAsFloat32 ::
  "scene_json \<Rightarrow> (string \<Rightarrow> buffer option) \<Rightarrow> jsstring option \<Rightarrow> decode_error + loaded" where
  "loadAttentionAsFloat32 sceneJson fetch urlPrecision =
     (case ensureShape sceneJson of
        Inl e \<Rightarrow> Inl e
      | Inr shp \<Rightarrow>
         (case resolveAttentionVariant sceneJson urlPrecision of
            Inl e \<Rightarrow> Inl (Unresolved e)
          | Inr res \<Rightarrow>
              let v = variant res;
                  dtype = lower_or_empty (v_dtype v);
                  encoding = lower_or_empty (v_encoding v);
                  dims = (shp ! 0, shp ! 1, shp ! 2, shp ! 3);
                  decoded =
                    (if dtype = js ''int4''
                        \<or> encoding = js ''symmetric_per_head_query_packed_int4''
                     then loadInt4Packed fetch v dims
                     else if dtype = js ''int8'' \<or> encoding = js ''symmetric_per_head''
                     then loadInt8PerHead fetch v dims
                     else loadRawFp32 fetch v dims)
              in case decoded of
                   Inl e \<Rightarrow> Inl e
                 | Inr f32 \<Rightarrow>
                     Inr \<lparr>float32 = f32, shape = shp, selectedPrecision = key res,
                          l_fallbackUsed = fallbackUsed res,
                          requestedPrecision = requested res\<rparr>))"

section \<open>Token layout builder (forwardAttention.js, dataLoader.js)\<close>

text \<open>
  The camera images are the \<open>Image\<close> elements the scene loaders create
  (\<open>loadImageFromUrl\<close>); the builders read their \<open>height\<close>, \<open>width\<close>, \<open>naturalHeight\<close> and
  \<open>naturalWidth\<close>. An index beyond the end of \<open>cameraImages\<close> or \<open>originalImages\<close> reads
  \<open>undefined\<close>, here \<open>None\<close>.
\<close>

record image =
  naturalHeight :: nat
  naturalWidth :: nat
  height :: nat
  width :: nat

record PatchInfo =
  camName :: string
  camIdx :: nat
  startIdx :: nat
  nPatches :: nat
  patchH :: nat
  patchW :: nat
  imgH :: nat
  imgW :: nat
  hScale :: jsnum
  wScale :: jsnum

datatype viz_error =
    UnknownImageFormat string
  | ZeroSizeImage string
  | TypeError
  | UnknownCamera string
  | HeadSelectionMissing
  | UnknownAggregation string

text \<open>A read \<open>xs[i]\<close> of a JavaScript array: \<open>undefined\<close> outside the array.\<close>

definition js_at :: "'a list \<Rightarrow> nat \<Rightarrow> 'a option" where
  "js_at xs i = (if i < length xs then Some (xs ! i) else None)"

text \<open>
  \<open>Array.prototype.sort\<close> with a comparator. The sort is stable; the comparator of the
  builders is \<open>a.name.localeCompare(b.name)\<close>, a function of the host (its collation
  depends on the engine and the locale) and therefore a parameter \<open>cmp\<close> of the model. For a
  comparator that is a consistent total preorder the result is the stable sorted
  permutation, which insertion from the right computes.
\<close>

fun insert_by :: "('a \<Rightarrow> 'a \<Rightarrow> int) \<Rightarrow> 'a \<Rightarrow> 'a list \<Rightarrow> 'a list" where
  "insert_by cmp x [] = [x]"
| "insert_by cmp x (y # ys) = (if cmp x y \<le> 0 then x # y # ys else y # insert_by cmp x ys)"

definition sort_by :: "('a \<Rightarrow> 'a \<Rightarrow> int) \<Rightarrow> 'a list \<Rightarrow> 'a list" where
  "sort_by cmp xs = foldr (insert_by cmp) xs []"

text \<open>
  The entries \<open>{name, idx, img, origImg}\<close> that \<open>_buildPatchInfo\<close> maps the camera names to,
  sorted by name.
\<close>

type_synonym camera = "string \<times> nat \<times> image option \<times> image option"

definition sorted_cameras ::
  "(string \<Rightarrow> string \<Rightarrow> int) \<Rightarrow> string list \<Rightarrow> image list \<Rightarrow> image list \<Rightarrow> camera list" where
  "sorted_cameras localeCompare cameraNames cameraImages originalImages =
     sort_by (\<lambda>a b. localeCompare (fst a) (fst b))
       (map (\<lambda>(name, idx). (name, idx, js_at cameraImages idx, js_at originalImages idx))
          (zip cameraNames [0..<length cameraNames]))"

text \<open>\<open>a || b || 0\<close> on dimensions.\<close>

definition first_nonzero :: "nat \<Rightarrow> nat \<Rightarrow> nat" where
  "first_nonzero a b = (if a \<noteq> 0 then a else b)"

text \<open>
  The body of the \<open>forEach\<close> of \<open>ForwardAttentionVisualizer._buildPatchInfo\<close> for one camera,
  at the cursor \<open>currentIdx\<close>: the new \<open>PatchInfo\<close> and the cursor after it, or the error
  thrown. \<open>Math.floor(H / patchSize)\<close> is the integer quotient (\<open>patchSize\<close> is never 0: the
  constructor replaces a missing or zero \<open>options.patchSize\<close> by 14).
\<close>

definition forward_camera :: "nat \<Rightarrow> bool \<Rightarrow> camera \<Rightarrow> nat \<Rightarrow> viz_error + PatchInfo \<times> nat" where
  "forward_camera pSize hasCls cam currentIdx =
     (case cam of (name, idx, img, origImg) \<Rightarrow>
      case img of
        None \<Rightarrow> Inl (UnknownImageFormat name)
      | Some im \<Rightarrow>
          let H = first_nonzero (naturalHeight im) (height im);
              W = first_nonzero (naturalWidth im) (width im)
          in if H = 0 \<or> W = 0 then Inl (ZeroSizeImage name)
             else
               let pH = H div pSize;
                   pW = W div pSize;
                   n = pH * pW;
                   origH = (case origImg of
                              Some oi \<Rightarrow> first_nonzero (naturalHeight oi) (height oi)
                            | None \<Rightarrow> H);
                   origW = (case origImg of
                              Some oi \<Rightarrow> first_nonzero (naturalWidth oi) (width oi)
                            | None \<Rightarrow> W);
                   hS = jsdiv (js_of_nat origH) (js_of_nat H);
                   wS = jsdiv (js_of_nat origW) (js_of_nat W);
                   cur = (if hasCls then currentIdx + 1 else currentIdx)
               in Inr (\<lparr>camName = name, camIdx = idx, startIdx = cur, nPatches = n,
                        patchH = pH, patchW = pW, imgH = H, imgW = W,
                        hScale = hS, wScale = wS\<rparr>,
                       cur + n))"

text \<open>
  The same for \<open>InverseAttentionVisualizer._buildPatchInfo\<close>, which reads \<open>height\<close> and \<open>width\<close>
  only and has no zero-size check; reading a property of \<open>undefined\<close> is a \<open>TypeError\<close>.
\<close>

definition inverse_camera :: "nat \<Rightarrow> bool \<Rightarrow> camera \<Rightarrow> nat \<Rightarrow> viz_error + PatchInfo \<times> nat" where
  "inverse_camera pSize hasCls cam currentIdx =
     (case cam of (name, idx, img, origImg) \<Rightarrow>
      case img of
        None \<Rightarrow> Inl TypeError
      | Some im \<Rightarrow>
          let H = height im;
              W = width im;
              pH = H div pSize;
              pW = W div pSize;
              n = pH * pW
          in case origImg of
               None \<Rightarrow> Inl TypeError
             | Some oi \<Rightarrow>
                 let origH = height oi;
                     origW = width oi;
                     hS = jsdiv (js_of_nat origH) (js_of_nat H);
                     wS = jsdiv (js_of_nat origW) (js_of_nat W);
                     cur = (if hasCls then currentIdx + 1 else currentIdx)
                 in Inr (\<lparr>camName = name, camIdx = idx, startIdx = cur, nPatches = n,
                          patchH = pH, patchW = pW, imgH = H, imgW = W,
                          hScale = hS, wScale = wS\<rparr>,
                         cur + n))"

text \<open>
  The \<open>forEach\<close> over the sorted cameras with its two variables \<open>infos\<close> and \<open>currentIdx\<close>,
  the same in both classes around their two bodies; a throw in the body ends it. The result
  is the final \<open>infos\<close> and the final cursor.
\<close>

fun layout_loop ::
  "(camera \<Rightarrow> nat \<Rightarrow> viz_error + PatchInfo \<times> nat) \<Rightarrow> camera list \<Rightarrow> PatchInfo list \<Rightarrow> nat
   \<Rightarrow> viz_error + PatchInfo list \<times> nat" where
  "layout_loop body [] infos currentIdx = Inr (infos, currentIdx)"
| "layout_loop body (cam # cams) infos currentIdx =
     (case body cam currentIdx of
        Inl e \<Rightarrow> Inl e
      | Inr (info, cur) \<Rightarrow> layout_loop body cams (infos @ [info]) cur)"

definition forward_layout ::
  "(string \<Rightarrow> string \<Rightarrow> int) \<Rightarrow> string list \<Rightarrow> image list \<Rightarrow> image list \<Rightarrow> nat \<Rightarrow> bool
   \<Rightarrow> viz_error + PatchInfo list \<times> nat" where
  "forward_layout localeCompare cameraNames cameraImages originalImages pSize hasCls =
     layout_loop (forward_camera pSize hasCls)
       (sorted_cameras localeCompare cameraNames cameraImages originalImages) [] 0"

definition inverse_layout ::
  "(string \<Rightarrow> string \<Rightarrow> int) \<Rightarrow> string list \<Rightarrow> image list \<Rightarrow> image list \<Rightarrow> nat \<Rightarrow> bool
   \<Rightarrow> viz_error + PatchInfo list \<times> nat" where
  "inverse_layout localeCompare cameraNames cameraImages originalImages pSize hasCls =
     layout_loop (inverse_camera pSize hasCls)
       (sorted_cameras localeCompare cameraNames cameraImages originalImages) [] 0"

text \<open>\<open>_buildPatchInfo\<close> returns \<open>infos\<close>.\<close>

definition forward_buildPatchInfo ::
  "(string \<Rightarrow> string \<Rightarrow> int) \<Rightarrow> string list \<Rightarrow> image list \<Rightarrow> image list \<Rightarrow> nat \<Rightarrow> bool
   \<Rightarrow> viz_error + PatchInfo list" where
  "forward_buildPatchInfo localeCompare cameraNames cameraImages originalImages pSize hasCls =
     map_sum id fst
       (forward_layout localeCompare cameraNames cameraImages originalImages pSize hasCls)"

definition inverse_buildPatchInfo ::
  "(string \<Rightarrow> string \<Rightarrow> int) \<Rightarrow> string list \<Rightarrow> image list \<Rightarrow> image list \<Rightarrow> nat \<Rightarrow> bool
   \<Rightarrow> viz_error + PatchInfo list" where
  "inverse_buildPatchInfo localeCompare cameraNames cameraImages originalImages pSize hasCls =
     map_sum id fst
       (inverse_layout localeCompare cameraNames cameraImages originalImages pSize hasCls)"

section \<open>Attention query engine (forwardAttention.js, dataLoader.js)\<close>

text \<open>
  The state of a visualizer built from a decoded \<open>Float32Array\<close> and its shape, as the scene
  loaders build it: \<open>attnWeightsFlat\<close> is set and the legacy nested-array field is \<open>null\<close>, so
  every method takes its flat branch. The record holds the fields the modelled methods
  read; both classes have them. \<open>nameToInfo\<close> is the object \<open>_nameToInfo\<close>.
\<close>

record visualizer =
  attnWeightsFlat :: "jsnum list"
  attnWeightsShape :: "nat \<times> nat \<times> nat \<times> nat"
  cameraNames :: "string list"
  gridSize :: nat
  patchSize :: nat
  hasClsTokens :: bool
  nQueries :: nat
  nHeads :: nat
  patchInfo :: "PatchInfo list"
  nameToInfo :: "string \<rightharpoonup> PatchInfo"

text \<open>
  The constructor options; \<open>None\<close> is a missing option. \<open>options.gridSize || 32\<close> and
  \<open>options.patchSize || 14\<close> also replace 0.
\<close>

record options =
  opt_attnWeightsShape :: "(nat \<times> nat \<times> nat \<times> nat) option"
  opt_originalImages :: "image list option"
  opt_gridSize :: "nat option"
  opt_patchSize :: "nat option"
  opt_hasClsTokens :: "bool option"

definition or_default :: "nat option \<Rightarrow> nat \<Rightarrow> nat" where
  "or_default v d = (case v of None \<Rightarrow> d | Some n \<Rightarrow> if n = 0 then d else n)"

definition make_visualizer ::
  "jsnum list \<Rightarrow> nat \<times> nat \<times> nat \<times> nat \<Rightarrow> string list \<Rightarrow> nat \<Rightarrow> nat \<Rightarrow> bool \<Rightarrow> PatchInfo list
   \<Rightarrow> visualizer" where
  "make_visualizer flat shp names g p cls infos =
     \<lparr>attnWeightsFlat = flat, attnWeightsShape = shp, cameraNames = names,
      gridSize = g, patchSize = p, hasClsTokens = cls,
      nQueries = g * g,
      nHeads = (case shp of (d1, d2, d3, d4) \<Rightarrow> d2),
      patchInfo = infos,
      nameToInfo = fold (\<lambda>info m. m(camName info \<mapsto> info)) infos Map.empty\<rparr>"

definition ForwardAttentionVisualizer ::
  "(string \<Rightarrow> string \<Rightarrow> int) \<Rightarrow> jsnum list \<Rightarrow> image list \<Rightarrow> string list \<Rightarrow> options
   \<Rightarrow> viz_error + visualizer" where
  "ForwardAttentionVisualizer localeCompare attnWeights cameraImages names opts =
     (let shp = (case opt_attnWeightsShape opts of None \<Rightarrow> (1, 8, 1024, 0) | Some s \<Rightarrow> s);
          origImages = (case opt_originalImages opts of None \<Rightarrow> cameraImages | Some oi \<Rightarrow> oi);
          g = or_default (opt_gridSize opts) 32;
          p = or_default (opt_patchSize opts) 14;
          cls = (case opt_hasClsTokens opts of None \<Rightarrow> True | Some b \<Rightarrow> b)
      in case forward_buildPatchInfo localeCompare names cameraImages origImages p cls of
           Inl e \<Rightarrow> Inl e
         | Inr infos \<Rightarrow> Inr (make_visualizer attnWeights shp names g p cls infos))"

definition InverseAttentionVisualizer ::
  "(string \<Rightarrow> string \<Rightarrow> int) \<Rightarrow> jsnum list \<Rightarrow> image list \<Rightarrow> string list \<Rightarrow> options
   \<Rightarrow> viz_error + visualizer" where
  "InverseAttentionVisualizer localeCompare attnWeights cameraImages names opts =
     (let shp = (case opt_attnWeightsShape opts of None \<Rightarrow> (1, 8, 1024, 1645) | Some s \<Rightarrow> s);
          origImages = (case opt_originalImages opts of None \<Rightarrow> cameraImages | Some oi \<Rightarrow> oi);
          g = or_default (opt_gridSize opts) 32;
          p = or_default (opt_patchSize opts) 14;
          cls = (case opt_hasClsTokens opts of None \<Rightarrow> True | Some b \<Rightarrow> b)
      in case inverse_buildPatchInfo localeCompare names cameraImages origImages p cls of
           Inl e \<Rightarrow> Inl e
         | Inr infos \<Rightarrow> Inr (make_visualizer attnWeights shp names g p cls infos))"

text \<open>
  \<open>_getAttnFlat\<close>, the same in both classes: the element at the flat index, \<open>undefined\<close>
  beyond the end of the tensor. \<open>ToNumber(undefined)\<close> is NaN.
\<close>

definition getAttnFlat :: "visualizer \<Rightarrow> nat \<Rightarrow> nat \<Rightarrow> nat \<Rightarrow> nat \<Rightarrow> jsnum option" where
  "getAttnFlat vis b h q k =
     (case attnWeightsShape vis of (d1, d2, d3, d4) \<Rightarrow>
        let idx = b * d2 * d3 * d4 + h * d3 * d4 + q * d4 + k
        in js_at (attnWeightsFlat vis) idx)"

definition to_number :: "jsnum option \<Rightarrow> jsnum" where
  "to_number v = (case v of None \<Rightarrow> NaN | Some x \<Rightarrow> x)"

text \<open>
  \<open>ForwardAttentionVisualizer.getCameraPatchAttentionForQuery\<close>. The loop over the patches
  of the camera writes \<open>out[i]\<close>, a \<open>Float32Array\<close> element, and throws from its body when
  neither \<open>meanHeads\<close> nor \<open>headIdx\<close> is given.
\<close>

fun forward_patch_loop ::
  "visualizer \<Rightarrow> nat \<Rightarrow> PatchInfo \<Rightarrow> bool \<Rightarrow> nat option \<Rightarrow> nat list \<Rightarrow> jsnum list
   \<Rightarrow> viz_error + jsnum list" where
  "forward_patch_loop vis queryIdx info meanHeads headIdx [] out = Inr out"
| "forward_patch_loop vis queryIdx info meanHeads headIdx (i # rest) out =
     (let H = nHeads vis;
          kIdx = startIdx info + i
      in if meanHeads then
           let sum = fold (\<lambda>h sum. jsadd sum (to_number (getAttnFlat vis 0 h queryIdx kIdx)))
                       [0..<H] (Fin 0)
           in forward_patch_loop vis queryIdx info meanHeads headIdx rest
                (out[i := fround (jsdiv sum (js_of_nat H))])
         else case headIdx of
           Some hIdx \<Rightarrow>
             forward_patch_loop vis queryIdx info meanHeads headIdx rest
               (out[i := fround (to_number (getAttnFlat vis 0 hIdx queryIdx kIdx))])
         | None \<Rightarrow> Inl HeadSelectionMissing)"

definition getCameraPatchAttentionForQuery ::
  "visualizer \<Rightarrow> nat \<Rightarrow> string \<Rightarrow> bool \<Rightarrow> nat option \<Rightarrow> viz_error + jsnum list" where
  "getCameraPatchAttentionForQuery vis queryIdx cam meanHeads headIdx =
     (case nameToInfo vis cam of
        None \<Rightarrow> Inl (UnknownCamera cam)
      | Some info \<Rightarrow>
          forward_patch_loop vis queryIdx info meanHeads headIdx [0..<nPatches info]
            (replicate (nPatches info) (Fin 0)))"

text \<open>
  \<open>InverseAttentionVisualizer.getInverseAttention\<close>. \<open>inverse_patchAttn\<close> is its variable
  \<open>patchAttn\<close>: for every query the attention to each selected key, averaged over the heads
  or taken from one head. \<open>inverse_bevAttn\<close> is \<open>bevAttn\<close>, the aggregation per query, and
  the result is the \<open>gridSize\<close> by \<open>gridSize\<close> map of these.
\<close>

definition inverse_patchAttn ::
  "visualizer \<Rightarrow> nat list \<Rightarrow> bool \<Rightarrow> nat option \<Rightarrow> viz_error + jsnum option list list" where
  "inverse_patchAttn vis patchIndices meanHeads headIdx =
     (let Q = nQueries vis; H = nHeads vis
      in if meanHeads then
           Inr (map (\<lambda>q. map (\<lambda>kIdx.
                   let sum = fold (\<lambda>h sum. jsadd sum (to_number (getAttnFlat vis 0 h q kIdx)))
                               [0..<H] (Fin 0)
                   in Some (jsdiv sum (js_of_nat H))) patchIndices) [0..<Q])
         else case headIdx of
           Some hIdx \<Rightarrow>
             Inr (map (\<lambda>q. map (\<lambda>kIdx. getAttnFlat vis 0 hIdx q kIdx) patchIndices) [0..<Q])
         | None \<Rightarrow> Inl HeadSelectionMissing)"

definition inverse_bevAttn :: "string \<Rightarrow> jsnum option list list \<Rightarrow> viz_error + jsnum list" where
  "inverse_bevAttn aggregation patchAttn =
     (if aggregation = ''sum'' then
        Inr (map (\<lambda>qAttn. foldl (\<lambda>sum val. jsadd sum (to_number val)) (Fin 0) qAttn) patchAttn)
      else if aggregation = ''max'' then
        Inr (map (\<lambda>qAttn. foldl jsmax NInf (map to_number qAttn)) patchAttn)
      else if aggregation = ''mean'' then
        Inr (map (\<lambda>qAttn.
               let sum = foldl (\<lambda>sum val. jsadd sum (to_number val)) (Fin 0) qAttn
               in jsdiv sum (js_of_nat (length qAttn))) patchAttn)
      else Inl (UnknownAggregation aggregation))"

definition getInverseAttention ::
  "visualizer \<Rightarrow> nat list \<Rightarrow> bool \<Rightarrow> nat option \<Rightarrow> string \<Rightarrow> viz_error + jsnum option list list" where
  "getInverseAttention vis patchIndices meanHeads headIdx aggregation =
     (case inverse_patchAttn vis patchIndices meanHeads headIdx of
        Inl e \<Rightarrow> Inl e
      | Inr patchAttn \<Rightarrow>
         (case inverse_bevAttn aggregation patchAttn of
            Inl e \<Rightarrow> Inl e
          | Inr bevAttn \<Rightarrow>
              Inr (map (\<lambda>y. map (\<lambda>x. let qIdx = y * gridSize vis + x in js_at bevAttn qIdx)
                               [0..<gridSize vis])
                     [0..<gridSize vis])))"

section \<open>Proof devices\<close>

text \<open>
  \<open>writes V lo hi out out'\<close>: the array \<open>out'\<close> is \<open>out\<close> with the elements at the indices
  \<open>lo \<le> j < hi\<close> overwritten by \<open>V j\<close>, and nothing else changed.
\<close>

definition writes :: "(nat \<Rightarrow> 'a) \<Rightarrow> nat \<Rightarrow> nat \<Rightarrow> 'a list \<Rightarrow> 'a list \<Rightarrow> bool" where
  "writes V lo hi out out' \<longleftrightarrow>
     length out' = length out
     \<and> (\<forall>j < length out. out' ! j = (if lo \<le> j \<and> j < hi then V j else out ! j))"

text \<open>
  \<open>chain c s infos e\<close>: starting at the cursor \<open>s\<close>, each entry of \<open>infos\<close> begins \<open>c\<close> tokens
  after the cursor and moves the cursor to the end of its own range; \<open>e\<close> is the final cursor.
\<close>

fun chain :: "nat \<Rightarrow> nat \<Rightarrow> PatchInfo list \<Rightarrow> nat \<Rightarrow> bool" where
  "chain c s [] e \<longleftrightarrow> e = s"
| "chain c s (x # xs) e \<longleftrightarrow> startIdx x = s + c \<and> chain c (startIdx x + nPatches x) xs e"

section \<open>Properties of the variant resolver\<close>


lemma normalizePrecision_cases:
  "normalizePrecision p \<in> {''auto'', ''fp32'', ''int8'', ''int4''}"
  by (simp add: normalizePrecision_def Let_def)

lemma get_property_own:
  "k \<notin> set object_prototype_members \<Longrightarrow> get_property m k = m k"
  by (simp add: get_property_def split: option.splits)

lemma get_property_known:
  "get_property m ''fp32'' = m ''fp32''"
  "get_property m ''int8_phs_v1'' = m ''int8_phs_v1''"
  "get_property m ''int4_phq_v1'' = m ''int4_phq_v1''"
  by (simp_all add: get_property_def object_prototype_members_def split: option.splits)

lemma toVariantKey_explicit:
  "toVariantKey ''fp32'' s = ''fp32''"
  "toVariantKey ''int8'' s = ''int8_phs_v1''"
  "toVariantKey ''int4'' s = ''int4_phq_v1''"
  by (simp_all add: toVariantKey_def)

lemma toVariantKey_auto_present:
  "attn_variants s = Some m \<Longrightarrow> toVariantKey ''auto'' s \<noteq> [] \<Longrightarrow>
   get_property m (toVariantKey ''auto'' s) \<noteq> None"
  by (simp add: toVariantKey_def Let_def split: if_splits)

text \<open>
  Claim C4. When the normalised request is \<open>int8\<close> or \<open>int4\<close> and the manifest has no
  entry for that variant's key (\<open>int8_phs_v1\<close>, \<open>int4_phq_v1\<close>), either because there is
  no \<open>attn_variants\<close> map at all or because the map lacks the key, the resolver throws:
  "This scene does not provide ... attention variants" in the first case, "Requested ...
  attention variant is missing for this scene" in the second. It never returns a variant.
\<close>

theorem resolve_explicit_absent_fails:
  assumes req: "(normalizePrecision p = ''int8'' \<and> k = ''int8_phs_v1'')
              \<or> (normalizePrecision p = ''int4'' \<and> k = ''int4_phq_v1'')"
    and absent: "case attn_variants s of None \<Rightarrow> True | Some m \<Rightarrow> m k = None"
  shows "resolveAttentionVariant s p =
           (case attn_variants s of
              None \<Rightarrow> Inl (NoVariantsProvided (normalizePrecision p))
            | Some m \<Rightarrow> Inl (RequestedVariantMissing (normalizePrecision p)))"
proof (cases "attn_variants s")
  case None
  with req show ?thesis
    by (auto simp: resolveAttentionVariant_def)
next
  case (Some m)
  with absent have mk: "m k = None" by simp
  from req show ?thesis
  proof
    assume a: "normalizePrecision p = ''int8'' \<and> k = ''int8_phs_v1''"
    with mk Some show ?thesis
      by (simp add: resolveAttentionVariant_def toVariantKey_explicit get_property_known)
  next
    assume a: "normalizePrecision p = ''int4'' \<and> k = ''int4_phq_v1''"
    with mk Some show ?thesis
      by (simp add: resolveAttentionVariant_def toVariantKey_explicit get_property_known)
  qed
qed

text \<open>
  The theorem at the request \<open>" INT8 "\<close> on a manifest that offers only \<open>fp32\<close>.
\<close>

theorem resolve_explicit_absent_fails_witness:
  "normalizePrecision (Some (js '' INT8 '')) = ''int8''
   \<and> resolveAttentionVariant
        \<lparr>attn_variants = Some [''fp32'' \<mapsto> \<lparr>v_file = Some ''a.bin'', v_scale_file = None,
                                           v_dtype = Some ''float32'', v_encoding = Some ''raw''\<rparr>],
         attn_weights_file = Some ''a.bin'', attn_precision_default = None,
      attn_weights_shape = None\<rparr>
        (Some (js '' INT8 '')) = Inl (RequestedVariantMissing ''int8'')"
proof -
  have n: "normalizePrecision (Some (js '' INT8 '')) = ''int8''"
    by code_simp
  show ?thesis
    using resolve_explicit_absent_fails
      [of "Some (js '' INT8 '')" "''int8_phs_v1''"
          "\<lparr>attn_variants = Some [''fp32'' \<mapsto> \<lparr>v_file = Some ''a.bin'', v_scale_file = None,
                                           v_dtype = Some ''float32'', v_encoding = Some ''raw''\<rparr>],
         attn_weights_file = Some ''a.bin'', attn_precision_default = None,
      attn_weights_shape = None\<rparr>"] n
    by simp
qed

text \<open>
  Claim C5, as stated, fails. On a legacy manifest (no \<open>attn_variants\<close>, only
  \<open>attn_weights_file\<close>) the explicit request \<open>fp32\<close> resolves to the key \<open>fp32\<close>, which is
  the key the request literally demands, and yet \<open>fallbackUsed\<close> is true; the request was not
  \<open>auto\<close>. And the request \<open>auto\<close> on a manifest whose \<open>attn_variants\<close> contains only \<open>fp32\<close>
  does not return the key \<open>fp32\<close> when the manifest's \<open>attn_precision_default\<close> is
  \<open>constructor\<close>: \<open>variants["constructor"]\<close> finds the inherited \<open>Object.prototype.constructor\<close>,
  and the resolver returns the key \<open>constructor\<close> with a variant that has no file.
\<close>

theorem fallbackUsed_fp32_counterexample:
  "resolveAttentionVariant
     \<lparr>attn_variants = None, attn_weights_file = Some ''attn.bin'',
      attn_precision_default = None,
      attn_weights_shape = None\<rparr> (Some (js ''fp32''))
   = Inr \<lparr>key = ''fp32'',
          variant = \<lparr>v_file = Some ''attn.bin'', v_scale_file = None,
                     v_dtype = Some ''float32'', v_encoding = Some ''raw''\<rparr>,
          fallbackUsed = True, requested = ''fp32''\<rparr>
   \<and> toVariantKey ''fp32'' \<lparr>attn_variants = None, attn_weights_file = Some ''attn.bin'',
      attn_precision_default = None,
      attn_weights_shape = None\<rparr> = ''fp32''
   \<and> resolveAttentionVariant
     \<lparr>attn_variants = Some [''fp32'' \<mapsto> \<lparr>v_file = Some ''a.bin'', v_scale_file = None,
                                        v_dtype = Some ''float32'', v_encoding = Some ''raw''\<rparr>],
      attn_weights_file = None, attn_precision_default = Some ''constructor'',
      attn_weights_shape = None\<rparr> (Some (js ''auto''))
   = Inr \<lparr>key = ''constructor'',
          variant = \<lparr>v_file = None, v_scale_file = None, v_dtype = None, v_encoding = None\<rparr>,
          fallbackUsed = False, requested = ''auto''\<rparr>"
proof -
  have n: "normalizePrecision (Some (js ''fp32'')) = ''fp32''"
    by code_simp
  have a: "normalizePrecision (Some (js ''auto'')) = ''auto''"
    by code_simp
  have g: "get_property
             [''fp32'' \<mapsto> \<lparr>v_file = Some ''a.bin'', v_scale_file = None,
                                v_dtype = Some ''float32'', v_encoding = Some ''raw''\<rparr>]
             ''constructor''
           = Some \<lparr>v_file = None, v_scale_file = None, v_dtype = None, v_encoding = None\<rparr>"
    by (simp add: get_property_def object_prototype_members_def)
  show ?thesis
    by (simp add: resolveAttentionVariant_def n a g buildLegacyFp32Variant_def toVariantKey_explicit
        toVariantKey_def Let_def)
qed

lemma resolve_fp32:
  assumes "normalizePrecision p = ''fp32''"
  shows "resolveAttentionVariant s p =
     (case (case attn_variants s of None \<Rightarrow> None | Some m \<Rightarrow> m ''fp32'') of
        Some v \<Rightarrow> Inr \<lparr>key = ''fp32'', variant = v, fallbackUsed = False, requested = ''fp32''\<rparr>
      | None \<Rightarrow>
         (case buildLegacyFp32Variant s of
            Some legacy \<Rightarrow> Inr \<lparr>key = ''fp32'', variant = legacy, fallbackUsed = True,
                                requested = ''fp32''\<rparr>
          | None \<Rightarrow> (case attn_variants s of None \<Rightarrow> Inl NoAttentionReference
                        | Some m \<Rightarrow> Inl (VariantUnavailable ''fp32''))))"
  by (simp add: resolveAttentionVariant_def assms toVariantKey_explicit get_property_known
      Let_def split: option.splits)

lemma resolve_int:
  assumes "normalizePrecision p = ''int8'' \<and> k = ''int8_phs_v1''
           \<or> normalizePrecision p = ''int4'' \<and> k = ''int4_phq_v1''"
  shows "resolveAttentionVariant s p =
     (case attn_variants s of
        None \<Rightarrow> Inl (NoVariantsProvided (normalizePrecision p))
      | Some m \<Rightarrow>
         (case m k of
            None \<Rightarrow> Inl (RequestedVariantMissing (normalizePrecision p))
          | Some v \<Rightarrow> Inr \<lparr>key = k, variant = v, fallbackUsed = False,
                           requested = normalizePrecision p\<rparr>))"
  using assms
  by (auto simp: resolveAttentionVariant_def toVariantKey_explicit get_property_known Let_def
      split: option.splits)

lemma resolve_auto:
  assumes "normalizePrecision p = ''auto''"
  shows "resolveAttentionVariant s p =
     (if attn_variants s = None \<or> toVariantKey ''auto'' s = [] then
        (case buildLegacyFp32Variant s of
           Some legacy \<Rightarrow> Inr \<lparr>key = ''fp32'', variant = legacy, fallbackUsed = False,
                               requested = ''auto''\<rparr>
         | None \<Rightarrow> (case attn_variants s of None \<Rightarrow> Inl NoAttentionReference
                       | Some m \<Rightarrow> Inl NoUsableVariants))
      else Inr \<lparr>key = toVariantKey ''auto'' s,
                 variant = the (get_property (the (attn_variants s)) (toVariantKey ''auto'' s)),
                 fallbackUsed = False, requested = ''auto''\<rparr>)"
proof (cases "attn_variants s")
  case None
  then show ?thesis
    by (simp add: resolveAttentionVariant_def assms Let_def split: option.splits)
next
  case (Some m)
  show ?thesis
  proof (cases "toVariantKey ''auto'' s = []")
    case True
    with Some show ?thesis
      by (simp add: resolveAttentionVariant_def assms Let_def split: option.splits)
  next
    case False
    with toVariantKey_auto_present [OF Some False] Some show ?thesis
      by (auto simp add: resolveAttentionVariant_def assms Let_def)
  qed
qed


lemma toVariantKey_auto_only_fp32:
  assumes "attn_variants s = Some m" "dom m = {''fp32''}"
    and dflt: "case attn_precision_default s of None \<Rightarrow> True
               | Some d \<Rightarrow> d \<notin> set object_prototype_members"
  shows "toVariantKey ''auto'' s = ''fp32''"
proof -
  have d: "m k \<noteq> None \<longleftrightarrow> k = ''fp32''" for k
  proof -
    have "k \<in> dom m \<longleftrightarrow> k \<in> {''fp32''}" by (simp only: assms(2))
    then show ?thesis by (simp only: domIff singleton_iff)
  qed
  have d1: "get_property m ''int4_phq_v1'' = None" "get_property m ''int8_phs_v1'' = None"
    "get_property m ''fp32'' \<noteq> None"
    using d [of "''int4_phq_v1''"] d [of "''int8_phs_v1''"] d [of "''fp32''"]
    by (simp_all add: get_property_known)
  define preferred where "preferred = (case attn_precision_default s of None \<Rightarrow> [] | Some s \<Rightarrow> s)"
  have own: "preferred \<noteq> [] \<Longrightarrow> get_property m preferred = m preferred"
  proof -
    assume ne: "preferred \<noteq> []"
    then obtain d where "attn_precision_default s = Some d" "preferred = d"
      unfolding preferred_def by (cases "attn_precision_default s") simp_all
    with dflt have "preferred \<notin> set object_prototype_members" by simp
    then show ?thesis by (rule get_property_own)
  qed
  have d2: "preferred \<noteq> [] \<and> get_property m preferred \<noteq> None \<Longrightarrow> preferred = ''fp32''"
  proof -
    assume a: "preferred \<noteq> [] \<and> get_property m preferred \<noteq> None"
    then have "m preferred \<noteq> None" using own by simp
    then show ?thesis by (simp only: d)
  qed
  show ?thesis
    unfolding toVariantKey_def Let_def assms(1) option.case preferred_def [symmetric]
    using d1 d2 by (cases "preferred \<noteq> [] \<and> get_property m preferred \<noteq> None") simp_all
qed

lemma resolve_auto_no_fallback:
  assumes a: "normalizePrecision p = ''auto''" and r: "resolveAttentionVariant s p = Inr r"
  shows "\<not> fallbackUsed r"
  using r unfolding resolve_auto [OF a]
  by (auto split: option.splits if_splits)

lemma resolve_int_no_fallback:
  assumes a: "normalizePrecision p = ''int8'' \<or> normalizePrecision p = ''int4''"
    and r: "resolveAttentionVariant s p = Inr r"
  shows "\<not> fallbackUsed r"
  using a
proof
  assume a: "normalizePrecision p = ''int8''"
  show ?thesis
    using r unfolding resolve_int [of p "''int8_phs_v1''", OF disjI1, OF conjI, OF a refl]
    by (auto split: option.splits)
next
  assume a: "normalizePrecision p = ''int4''"
  show ?thesis
    using r unfolding resolve_int [of p "''int4_phq_v1''", OF disjI2, OF conjI, OF a refl]
    by (auto split: option.splits)
qed

lemma resolve_fp32_fallback:
  assumes a: "normalizePrecision p = ''fp32''" and r: "resolveAttentionVariant s p = Inr r"
  shows "(fallbackUsed r \<longleftrightarrow>
            (case attn_variants s of None \<Rightarrow> True | Some m \<Rightarrow> m ''fp32'' = None))
         \<and> (fallbackUsed r \<longrightarrow>
               key r = ''fp32'' \<and> buildLegacyFp32Variant s = Some (variant r))"
  using r unfolding resolve_fp32 [OF a]
  by (cases "attn_variants s") (auto split: option.splits)

lemma resolve_auto_only_fp32:
  assumes sm: "attn_variants s = Some m" and dm: "dom m = {''fp32''}"
    and pa: "normalizePrecision p = ''auto''"
    and dflt: "case attn_precision_default s of None \<Rightarrow> True
               | Some d \<Rightarrow> d \<notin> set object_prototype_members"
  shows "resolveAttentionVariant s p =
           Inr \<lparr>key = ''fp32'', variant = the (m ''fp32''),
                fallbackUsed = False, requested = ''auto''\<rparr>"
proof -
  have k: "toVariantKey ''auto'' s = ''fp32''"
    by (rule toVariantKey_auto_only_fp32 [OF sm dm dflt])
  have ne: "''fp32'' \<noteq> []" by simp
  show ?thesis
    unfolding resolve_auto [OF pa] k sm using ne by (simp add: get_property_known)
qed

text \<open>
  Claim C5, amended. Whenever the resolver returns, \<open>fallbackUsed\<close> is true exactly when the
  normalised request is \<open>fp32\<close> and the manifest has no \<open>fp32\<close> entry in \<open>attn_variants\<close>
  (or no \<open>attn_variants\<close> map); the resolved key is then \<open>fp32\<close> and the variant is the legacy
  single-file reference \<open>attn_weights_file\<close>. A request of \<open>auto\<close> never sets \<open>fallbackUsed\<close>.
  In particular \<open>auto\<close> on a manifest whose \<open>attn_variants\<close> holds only \<open>fp32\<close> returns key
  \<open>fp32\<close> with \<open>fallbackUsed = false\<close>, provided the manifest's \<open>attn_precision_default\<close>, if
  it has one, is not the name of a member of \<open>Object.prototype\<close>.
\<close>

theorem fallbackUsed_characterised:
  "(resolveAttentionVariant s p = Inr r \<longrightarrow>
      (fallbackUsed r \<longleftrightarrow>
         normalizePrecision p = ''fp32''
         \<and> (case attn_variants s of None \<Rightarrow> True | Some m \<Rightarrow> m ''fp32'' = None))
      \<and> (fallbackUsed r \<longrightarrow>
            key r = ''fp32'' \<and> buildLegacyFp32Variant s = Some (variant r))
      \<and> (normalizePrecision p = ''auto'' \<longrightarrow> \<not> fallbackUsed r))
   \<and> (attn_variants s = Some m \<and> dom m = {''fp32''} \<and> normalizePrecision p = ''auto''
        \<and> (case attn_precision_default s of None \<Rightarrow> True
            | Some d \<Rightarrow> d \<notin> set object_prototype_members) \<longrightarrow>
        resolveAttentionVariant s p =
          Inr \<lparr>key = ''fp32'', variant = the (m ''fp32''),
               fallbackUsed = False, requested = ''auto''\<rparr>)"
proof (rule conjI)
  show "attn_variants s = Some m \<and> dom m = {''fp32''} \<and> normalizePrecision p = ''auto''
        \<and> (case attn_precision_default s of None \<Rightarrow> True
            | Some d \<Rightarrow> d \<notin> set object_prototype_members) \<longrightarrow>
        resolveAttentionVariant s p =
          Inr \<lparr>key = ''fp32'', variant = the (m ''fp32''),
               fallbackUsed = False, requested = ''auto''\<rparr>"
  proof
    assume a: "attn_variants s = Some m \<and> dom m = {''fp32''} \<and> normalizePrecision p = ''auto''
        \<and> (case attn_precision_default s of None \<Rightarrow> True
            | Some d \<Rightarrow> d \<notin> set object_prototype_members)"
    show "resolveAttentionVariant s p =
          Inr \<lparr>key = ''fp32'', variant = the (m ''fp32''),
               fallbackUsed = False, requested = ''auto''\<rparr>"
      by (rule resolve_auto_only_fp32 [OF a [THEN conjunct1] a [THEN conjunct2, THEN conjunct1]
            a [THEN conjunct2, THEN conjunct2, THEN conjunct1]
            a [THEN conjunct2, THEN conjunct2, THEN conjunct2]])
  qed
next
  show "resolveAttentionVariant s p = Inr r \<longrightarrow>
      (fallbackUsed r \<longleftrightarrow>
         normalizePrecision p = ''fp32''
         \<and> (case attn_variants s of None \<Rightarrow> True | Some m \<Rightarrow> m ''fp32'' = None))
      \<and> (fallbackUsed r \<longrightarrow>
            key r = ''fp32'' \<and> buildLegacyFp32Variant s = Some (variant r))
      \<and> (normalizePrecision p = ''auto'' \<longrightarrow> \<not> fallbackUsed r)"
  proof
    assume r: "resolveAttentionVariant s p = Inr r"
    have n: "normalizePrecision p = ''auto'' \<or> normalizePrecision p = ''fp32''
             \<or> (normalizePrecision p = ''int8'' \<or> normalizePrecision p = ''int4'')"
      using normalizePrecision_cases [of p] by simp
    from n show "(fallbackUsed r \<longleftrightarrow>
         normalizePrecision p = ''fp32''
         \<and> (case attn_variants s of None \<Rightarrow> True | Some m \<Rightarrow> m ''fp32'' = None))
      \<and> (fallbackUsed r \<longrightarrow>
            key r = ''fp32'' \<and> buildLegacyFp32Variant s = Some (variant r))
      \<and> (normalizePrecision p = ''auto'' \<longrightarrow> \<not> fallbackUsed r)"
    proof (elim disjE)
      assume a: "normalizePrecision p = ''auto''"
      from resolve_auto_no_fallback [OF a r] show ?thesis by (simp add: a)
    next
      assume a: "normalizePrecision p = ''fp32''"
      from resolve_fp32_fallback [OF a r] show ?thesis by (simp add: a)
    next
      assume a: "normalizePrecision p = ''int8''"
      from resolve_int_no_fallback [OF disjI1, OF a r] show ?thesis by (simp add: a)
    next
      assume a: "normalizePrecision p = ''int4''"
      from resolve_int_no_fallback [OF disjI2, OF a r] show ?thesis by (simp add: a)
    qed
  qed
qed

text \<open>
  The theorem at an \<open>fp32\<close>-only manifest whose \<open>attn_precision_default\<close> names a variant
  it does not have, and an absent (\<open>undefined\<close>) precision request.
\<close>

theorem fallbackUsed_characterised_witness:
  "resolveAttentionVariant
     \<lparr>attn_variants = Some [''fp32'' \<mapsto> \<lparr>v_file = Some ''a.bin'', v_scale_file = None,
                                        v_dtype = Some ''float32'', v_encoding = Some ''raw''\<rparr>],
      attn_weights_file = None, attn_precision_default = Some ''int8_phs_v1'',
      attn_weights_shape = None\<rparr> None
   = Inr \<lparr>key = ''fp32'',
          variant = \<lparr>v_file = Some ''a.bin'', v_scale_file = None,
                     v_dtype = Some ''float32'', v_encoding = Some ''raw''\<rparr>,
          fallbackUsed = False, requested = ''auto''\<rparr>
   \<and> normalizePrecision None = ''auto''"
proof -
  have n: "normalizePrecision None = ''auto''"
    by code_simp
  have d: "dom [''fp32'' \<mapsto> \<lparr>v_file = Some ''a.bin'', v_scale_file = None,
                                        v_dtype = Some ''float32'', v_encoding = Some ''raw''\<rparr>]
           = {''fp32''}"
    by (simp only: dom_fun_upd dom_empty option.simps if_False)
  have o: "''int8_phs_v1'' \<notin> set object_prototype_members"
    by (simp add: object_prototype_members_def)
  show ?thesis
    using fallbackUsed_characterised
      [of "\<lparr>attn_variants = Some [''fp32'' \<mapsto> \<lparr>v_file = Some ''a.bin'', v_scale_file = None,
                                        v_dtype = Some ''float32'', v_encoding = Some ''raw''\<rparr>],
      attn_weights_file = None, attn_precision_default = Some ''int8_phs_v1'',
      attn_weights_shape = None\<rparr>" None
          "\<lparr>key = ''fp32'',
          variant = \<lparr>v_file = Some ''a.bin'', v_scale_file = None,
                     v_dtype = Some ''float32'', v_encoding = Some ''raw''\<rparr>,
          fallbackUsed = False, requested = ''auto''\<rparr>"
          "[''fp32'' \<mapsto> \<lparr>v_file = Some ''a.bin'', v_scale_file = None,
                                        v_dtype = Some ''float32'', v_encoding = Some ''raw''\<rparr>]"] n d o
    by simp
qed

lemma normalizePrecision_trims_unicode_space:
  "normalizePrecision (Some ([0xA0, 0x2003] @ js ''Int8'' @ [0xFEFF, 0x0A])) = ''int8''
   \<and> normalizePrecision (Some (js ''INT4_PHQ_V1'')) = ''int4''
   \<and> normalizePrecision (Some [0x130, 0x6E, 0x74, 0x38]) = ''auto''
   \<and> toLowerCase [0x212A] = js ''k''"
  by code_simp

text \<open>
  Claim C10. Every requested precision that, after trimming and lower-casing, is none of
  \<open>fp32\<close>, \<open>float32\<close>, \<open>int8\<close>, \<open>int8_phs_v1\<close>, \<open>int4\<close>, \<open>int4_phq_v1\<close> (the string \<open>auto\<close>,
  any unrecognised string, the empty string, \<open>null\<close> and \<open>undefined\<close>) is normalised to
  \<open>auto\<close>; \<open>normalizePrecision\<close> is total, it has no failing branch. The resolver therefore
  treats a mistyped request exactly as the request \<open>auto\<close>. The request is any string of
  UTF-16 code units; trimming strips the Unicode white space of \<open>String.prototype.trim\<close>.
\<close>

theorem normalizePrecision_unrecognized:
  assumes "toLowerCase (trim (case v of None \<Rightarrow> js ''auto''
                              | Some s \<Rightarrow> if s = [] then js ''auto'' else s))
           \<notin> {js ''fp32'', js ''float32'', js ''int8'', js ''int8_phs_v1'', js ''int4'',
               js ''int4_phq_v1''}"
  shows "normalizePrecision v = ''auto''
         \<and> resolveAttentionVariant scene v = resolveAttentionVariant scene (Some (js ''auto''))"
proof -
  define raw where "raw = toLowerCase (trim (case v of None \<Rightarrow> js ''auto''
                              | Some s \<Rightarrow> if s = [] then js ''auto'' else s))"
  have r: "raw \<noteq> js ''fp32''" "raw \<noteq> js ''float32''" "raw \<noteq> js ''int8''"
    "raw \<noteq> js ''int8_phs_v1''" "raw \<noteq> js ''int4''" "raw \<noteq> js ''int4_phq_v1''"
    using assms unfolding raw_def by (simp_all only: insert_iff de_Morgan_disj simp_thms)
  have a: "normalizePrecision v = ''auto''"
    unfolding normalizePrecision_def raw_def [symmetric] Let_def
    using r by (simp only: if_False simp_thms if_cancel)
  have b: "normalizePrecision (Some (js ''auto'')) = ''auto''"
    by code_simp
  show ?thesis
    unfolding resolveAttentionVariant_def a b by (intro conjI refl)
qed


text \<open>
  The theorem at the mistyped request \<open>int16\<close>, padded with a no-break space.
\<close>

theorem normalizePrecision_unrecognized_witness:
  "normalizePrecision (Some (0xA0 # js ''Int16'')) = ''auto''
   \<and> resolveAttentionVariant
        \<lparr>attn_variants = None, attn_weights_file = Some ''attn.bin'',
         attn_precision_default = None,
      attn_weights_shape = None\<rparr> (Some (0xA0 # js ''Int16''))
     = resolveAttentionVariant
        \<lparr>attn_variants = None, attn_weights_file = Some ''attn.bin'',
         attn_precision_default = None,
      attn_weights_shape = None\<rparr> (Some (js ''auto''))"
proof -
  have h: "toLowerCase (trim (case Some (0xA0 # js ''Int16'') of None \<Rightarrow> js ''auto''
                               | Some s \<Rightarrow> if s = [] then js ''auto'' else s))
           \<notin> {js ''fp32'', js ''float32'', js ''int8'', js ''int8_phs_v1'', js ''int4'',
               js ''int4_phq_v1''}"
    by code_simp
  show ?thesis
    by (rule normalizePrecision_unrecognized [OF h])
qed

section \<open>Properties of the decoder\<close>


lemma length_f32_elems: "length (f32_elems bs) = length bs div 4"
  by (induction bs rule: f32_elems.induct) simp_all

lemma fold_length:
  assumes "\<And>i out. length (G i out) = length out"
  shows "length (fold G xs out) = length out"
  using assms by (induction xs arbitrary: out) simp_all

lemma writes_upd: "writes V lo lo out out"
  by (auto simp: writes_def)

lemma writes_trans:
  assumes "writes V lo mid out out1" "writes V mid hi out1 out2" "lo \<le> mid" "mid \<le> hi"
  shows "writes V lo hi out out2"
  using assms by (auto simp: writes_def)

lemma fold_writes:
  assumes step: "\<And>i out. i < n \<Longrightarrow> writes V (b + i * s) (b + Suc i * s) out (G i out)"
  shows "writes V b (b + n * s) out (fold G [0..<n] out)"
  using step
proof (induction n)
  case 0
  show ?case by (simp add: writes_upd)
next
  case (Suc n)
  have a: "writes V b (b + n * s) out (fold G [0..<n] out)"
    using Suc.IH Suc.prems by simp
  have b: "writes V (b + n * s) (b + Suc n * s) (fold G [0..<n] out) (G n (fold G [0..<n] out))"
    using Suc.prems [of n] by simp
  show ?case
    using writes_trans [OF a b] by simp
qed

lemma writes_single:
  "writes V j (Suc j) out (out[j := V j])"
  by (auto simp: writes_def nth_list_update less_Suc_eq_le)












lemma div4_exact: "(n::nat) mod 4 = 0 \<Longrightarrow> n div 4 = m \<Longrightarrow> n = 4 * m"
  by presburger

lemma loadInt4Packed_Inr:
  assumes "loadInt4Packed fetch v (b, h, qDim, kDim) = Inr out"
  shows "\<exists>packed sBuffer.
           fetch (the (v_file v)) = Some packed \<and> fetch (the (v_scale_file v)) = Some sBuffer
           \<and> b = 1 \<and> length packed = (h * qDim * kDim + 1) div 2
           \<and> length sBuffer = 4 * (h * qDim)
           \<and> out = fold (int4_q_loop packed (f32_elems sBuffer) qDim kDim) [0..<h]
                       (replicate (h * qDim * kDim) (Fin 0))"
  using assms
  by (auto simp: loadInt4Packed_def fetchBoth_def fetchArrayBufferOrThrow_def Float32Array_of_def
      Let_def length_f32_elems div4_exact split: option.splits sum.splits if_splits)













lemma prod_js_4: "prod_js [b, h, qDim, kDim] = b * h * qDim * kDim"
  by (simp add: prod_js_def)

lemma loadRawFp32_Inr:
  assumes "loadRawFp32 fetch v (b, h, qDim, kDim) = Inr out"
  shows "\<exists>payload. fetch (the (v_file v)) = Some payload
           \<and> length payload = 4 * (b * h * qDim * kDim)
           \<and> out = f32_elems payload \<and> length out = b * h * qDim * kDim"
  using assms
  by (auto simp: loadRawFp32_def fetchArrayBufferOrThrow_def Float32Array_of_def prod_js_4
      Let_def length_f32_elems div4_exact split: option.splits sum.splits if_splits)

lemma length_int8_head_loop:
  "length (int8_head_loop q scales headStride head out) = length out"
  unfolding int8_head_loop_def Let_def by (rule fold_length) simp

lemma length_int4_k_loop:
  "length (int4_k_loop packed scale base kDim out) = length out"
  unfolding int4_k_loop_def Let_def by (rule fold_length) simp

lemma length_int4_q_loop:
  "length (int4_q_loop packed scales qDim kDim head out) = length out"
  unfolding int4_q_loop_def Let_def by (rule fold_length) (rule length_int4_k_loop)

lemma loadInt8PerHead_Inr:
  assumes "loadInt8PerHead fetch v (b, h, qDim, kDim) = Inr out"
  shows "\<exists>q sBuffer.
           fetch (the (v_file v)) = Some q \<and> fetch (the (v_scale_file v)) = Some sBuffer
           \<and> b = 1 \<and> length q = h * qDim * kDim
           \<and> length sBuffer = 4 * h
           \<and> out = fold (int8_head_loop q (f32_elems sBuffer) (qDim * kDim)) [0..<h]
                       (replicate (h * qDim * kDim) (Fin 0))"
  using assms
  by (auto simp: loadInt8PerHead_def fetchBoth_def fetchArrayBufferOrThrow_def Float32Array_of_def
      Let_def length_f32_elems div4_exact split: option.splits sum.splits if_splits)

lemma length_loadInt8PerHead:
  assumes "loadInt8PerHead fetch v (b, h, qDim, kDim) = Inr out"
  shows "length out = h * qDim * kDim"
proof -
  from loadInt8PerHead_Inr [OF assms] obtain q sBuffer where
    "out = fold (int8_head_loop q (f32_elems sBuffer) (qDim * kDim)) [0..<h]
                       (replicate (h * qDim * kDim) (Fin 0))" by blast
  then have "length out = length (replicate (h * qDim * kDim) (Fin 0 :: jsnum))"
    by (simp only: fold_length [of "int8_head_loop q (f32_elems sBuffer) (qDim * kDim)", OF length_int8_head_loop])
  then show ?thesis by simp
qed

lemma length_loadInt4Packed:
  assumes "loadInt4Packed fetch v (b, h, qDim, kDim) = Inr out"
  shows "length out = h * qDim * kDim"
proof -
  from loadInt4Packed_Inr [OF assms] obtain packed sBuffer where
    "out = fold (int4_q_loop packed (f32_elems sBuffer) qDim kDim) [0..<h]
                       (replicate (h * qDim * kDim) (Fin 0))" by blast
  then have "length out = length (replicate (h * qDim * kDim) (Fin 0 :: jsnum))"
    by (simp only: fold_length [of "int4_q_loop packed (f32_elems sBuffer) qDim kDim", OF length_int4_q_loop])
  then show ?thesis by simp
qed

lemma quantized_reject_batch:
  assumes "b \<noteq> 1"
  shows "loadInt8PerHead fetch v (b, h, qDim, kDim) \<noteq> Inr out"
    and "loadInt4Packed fetch v (b, h, qDim, kDim) \<noteq> Inr out"
  using assms loadInt8PerHead_Inr [of fetch v b h qDim kDim out]
    loadInt4Packed_Inr [of fetch v b h qDim kDim out] by blast+


lemma length_loadAttentionAsFloat32:
  assumes ok: "loadAttentionAsFloat32 sceneJson fetch p = Inr r"
    and shp: "attn_weights_shape sceneJson = Some [1, h, qDim, kDim]"
  shows "length (float32 r) = h * qDim * kDim"
proof -
  have es: "ensureShape sceneJson = Inr [1, h, qDim, kDim]"
    by (simp add: ensureShape_def shp)
  from ok obtain res where res: "resolveAttentionVariant sceneJson p = Inr res"
    by (auto simp: loadAttentionAsFloat32_def es split: sum.splits)
  define v where "v = variant res"
  from ok res consider
      (i4) "loadInt4Packed fetch v (1, h, qDim, kDim) = Inr (float32 r)"
    | (i8) "loadInt8PerHead fetch v (1, h, qDim, kDim) = Inr (float32 r)"
    | (f) "loadRawFp32 fetch v (1, h, qDim, kDim) = Inr (float32 r)"
    by (auto simp: loadAttentionAsFloat32_def es Let_def v_def split: sum.splits if_splits)
  then show ?thesis
  proof cases
    case i4
    then show ?thesis by (rule length_loadInt4Packed)
  next
    case i8
    then show ?thesis by (rule length_loadInt8PerHead)
  next
    case f
    from loadRawFp32_Inr [OF f] show ?thesis by auto
  qed
qed

text \<open>
  Claim C2. For the expected shape \<open>[1, H, Q, K]\<close> and each encoding, a decode that succeeds
  returns exactly \<open>H*Q*K\<close> values, and it succeeds only if the fetched payload has exactly the
  length the shape and the encoding imply (\<open>4*H*Q*K\<close> bytes of fp32, \<open>H*Q*K\<close> bytes of int8,
  \<open>ceil(H*Q*K / 2)\<close> bytes of packed int4) and the scale file holds exactly \<open>H\<close> (int8) or
  \<open>H*Q\<close> (int4) binary32 values. With any other length the loader throws; nothing is
  truncated or padded. The same length holds for the dispatcher \<open>loadAttentionAsFloat32\<close>.
\<close>

theorem decode_length_exact:
  "(loadRawFp32 fetch vf (1, h, qDim, kDim) = Inr outf \<longrightarrow>
      length outf = h * qDim * kDim
      \<and> (\<exists>payload. fetch (the (v_file vf)) = Some payload
             \<and> length payload = 4 * (h * qDim * kDim)))
   \<and> (loadInt8PerHead fetch v8 (1, h, qDim, kDim) = Inr out8 \<longrightarrow>
      length out8 = h * qDim * kDim
      \<and> (\<exists>payload sBuffer.
             fetch (the (v_file v8)) = Some payload \<and> length payload = h * qDim * kDim
             \<and> fetch (the (v_scale_file v8)) = Some sBuffer \<and> length sBuffer = 4 * h))
   \<and> (loadInt4Packed fetch v4 (1, h, qDim, kDim) = Inr out4 \<longrightarrow>
      length out4 = h * qDim * kDim
      \<and> (\<exists>payload sBuffer.
             fetch (the (v_file v4)) = Some payload
             \<and> length payload = (h * qDim * kDim + 1) div 2
             \<and> fetch (the (v_scale_file v4)) = Some sBuffer
             \<and> length sBuffer = 4 * (h * qDim)))
   \<and> (loadAttentionAsFloat32 sceneJson fetch p = Inr r
        \<and> attn_weights_shape sceneJson = Some [1, h, qDim, kDim] \<longrightarrow>
      length (float32 r) = h * qDim * kDim)"
proof (intro conjI impI)
  assume a: "loadRawFp32 fetch vf (1, h, qDim, kDim) = Inr outf"
  from loadRawFp32_Inr [OF a] show "length outf = h * qDim * kDim" by auto
  from loadRawFp32_Inr [OF a] show "\<exists>payload. fetch (the (v_file vf)) = Some payload
             \<and> length payload = 4 * (h * qDim * kDim)" by auto
next
  assume a: "loadInt8PerHead fetch v8 (1, h, qDim, kDim) = Inr out8"
  from length_loadInt8PerHead [OF a] show "length out8 = h * qDim * kDim" .
  from loadInt8PerHead_Inr [OF a] show "\<exists>payload sBuffer.
             fetch (the (v_file v8)) = Some payload \<and> length payload = h * qDim * kDim
             \<and> fetch (the (v_scale_file v8)) = Some sBuffer \<and> length sBuffer = 4 * h"
    by blast
next
  assume a: "loadInt4Packed fetch v4 (1, h, qDim, kDim) = Inr out4"
  from length_loadInt4Packed [OF a] show "length out4 = h * qDim * kDim" .
  from loadInt4Packed_Inr [OF a] show "\<exists>payload sBuffer.
             fetch (the (v_file v4)) = Some payload
             \<and> length payload = (h * qDim * kDim + 1) div 2
             \<and> fetch (the (v_scale_file v4)) = Some sBuffer
             \<and> length sBuffer = 4 * (h * qDim)"
    by blast
next
  assume a: "loadAttentionAsFloat32 sceneJson fetch p = Inr r
        \<and> attn_weights_shape sceneJson = Some [1, h, qDim, kDim]"
  show "length (float32 r) = h * qDim * kDim"
    by (rule length_loadAttentionAsFloat32 [OF a [THEN conjunct1] a [THEN conjunct2]])
qed

text \<open>
  The theorem at the shape \<open>[1, 1, 1, 1]\<close>, one decode per encoding and one through the
  dispatcher.
\<close>

theorem decode_length_exact_witness:
  "loadRawFp32 (\<lambda>f. if f = ''f.bin'' then Some [0, 0, 0x80, 0x3F]
                    else if f = ''q.bin'' then Some [0x1F] else None)
     \<lparr>v_file = Some ''f.bin'', v_scale_file = None, v_dtype = Some ''float32'',
      v_encoding = Some ''raw''\<rparr> (1, 1, 1, 1) = Inr [Fin 1]
   \<and> loadInt8PerHead (\<lambda>f. if f = ''f.bin'' then Some [0, 0, 0x80, 0x3F]
                    else if f = ''q.bin'' then Some [0x1F] else None)
     \<lparr>v_file = Some ''q.bin'', v_scale_file = Some ''f.bin'', v_dtype = Some ''int8'',
      v_encoding = Some ''symmetric_per_head''\<rparr> (1, 1, 1, 1) = Inr [Fin 31]
   \<and> loadInt4Packed (\<lambda>f. if f = ''f.bin'' then Some [0, 0, 0x80, 0x3F]
                    else if f = ''q.bin'' then Some [0x1F] else None)
     \<lparr>v_file = Some ''q.bin'', v_scale_file = Some ''f.bin'', v_dtype = Some ''int4'',
      v_encoding = Some ''symmetric_per_head_query_packed_int4''\<rparr> (1, 1, 1, 1)
     = Inr [Fin (- 1)]
   \<and> loadAttentionAsFloat32
       \<lparr>attn_variants = None, attn_weights_file = Some ''f.bin'',
        attn_precision_default = None, attn_weights_shape = Some [1, 1, 1, 1]\<rparr>
       (\<lambda>f. if f = ''f.bin'' then Some [0, 0, 0x80, 0x3F]
                    else if f = ''q.bin'' then Some [0x1F] else None) None
     = Inr \<lparr>float32 = [Fin 1], shape = [1, 1, 1, 1], selectedPrecision = ''fp32'',
            l_fallbackUsed = False, requestedPrecision = ''auto''\<rparr>
   \<and> length [Fin 1] = 1 * 1 * 1 \<and> length [Fin 31] = 1 * 1 * 1
   \<and> length [Fin (- 1)] = 1 * 1 * 1"
proof -
  let ?fetch = "\<lambda>f. if f = ''f.bin'' then Some [0, 0, 0x80, 0x3F :: 8 word]
                    else if f = ''q.bin'' then Some [0x1F] else None"
  let ?vf = "\<lparr>v_file = Some ''f.bin'', v_scale_file = None, v_dtype = Some ''float32'',
      v_encoding = Some ''raw''\<rparr>"
  let ?v8 = "\<lparr>v_file = Some ''q.bin'', v_scale_file = Some ''f.bin'', v_dtype = Some ''int8'',
      v_encoding = Some ''symmetric_per_head''\<rparr>"
  let ?v4 = "\<lparr>v_file = Some ''q.bin'', v_scale_file = Some ''f.bin'', v_dtype = Some ''int4'',
      v_encoding = Some ''symmetric_per_head_query_packed_int4''\<rparr>"
  let ?scene = "\<lparr>attn_variants = None, attn_weights_file = Some ''f.bin'',
        attn_precision_default = None, attn_weights_shape = Some [1, 1, 1, 1]\<rparr>"
  let ?r = "\<lparr>float32 = [Fin 1], shape = [1, 1, 1, 1], selectedPrecision = ''fp32'',
            l_fallbackUsed = False, requestedPrecision = ''auto''\<rparr>"
  have f: "loadRawFp32 ?fetch ?vf (1, 1, 1, 1) = Inr [Fin 1]" by code_simp
  have i8: "loadInt8PerHead ?fetch ?v8 (1, 1, 1, 1) = Inr [Fin 31]" by code_simp
  have i4: "loadInt4Packed ?fetch ?v4 (1, 1, 1, 1) = Inr [Fin (- 1)]" by code_simp
  have d: "loadAttentionAsFloat32 ?scene ?fetch None = Inr ?r" by code_simp
  have s: "attn_weights_shape ?scene = Some [1, 1, 1, 1]" by simp
  note t = decode_length_exact [of ?fetch ?vf 1 1 1 "[Fin 1]" ?v8 "[Fin 31]" ?v4 "[Fin (- 1)]"
      ?scene None ?r]
  from t f have "length [Fin 1 :: jsnum] = 1 * 1 * 1" by blast
  moreover from t i8 have "length [Fin 31 :: jsnum] = 1 * 1 * 1" by blast
  moreover from t i4 have "length [Fin (- 1) :: jsnum] = 1 * 1 * 1" by blast
  ultimately show ?thesis using f i8 i4 d by (intro conjI)
qed

text \<open>
  Claim C9 does not hold for fp32. \<open>loadRawFp32\<close> has no batch check: with the shape
  \<open>[2, 1, 1, 1]\<close> and a payload of two floats it returns both values, alone and through
  \<open>loadAttentionAsFloat32\<close>. The int8 and int4 loaders do reject every batch size other than
  1 (lemma \<open>quantized_reject_batch\<close>).
\<close>

theorem loadRawFp32_accepts_batch_2:
  "loadRawFp32 (\<lambda>f. if f = ''attn.bin'' then Some [0, 0, 0x80, 0x3F, 0, 0, 0, 0x40] else None)
     \<lparr>v_file = Some ''attn.bin'', v_scale_file = None, v_dtype = Some ''float32'',
      v_encoding = Some ''raw''\<rparr> (2, 1, 1, 1) = Inr [Fin 1, Fin 2]
   \<and> loadAttentionAsFloat32
       \<lparr>attn_variants = None, attn_weights_file = Some ''attn.bin'',
        attn_precision_default = None, attn_weights_shape = Some [2, 1, 1, 1]\<rparr>
       (\<lambda>f. if f = ''attn.bin'' then Some [0, 0, 0x80, 0x3F, 0, 0, 0, 0x40] else None) None
     = Inr \<lparr>float32 = [Fin 1, Fin 2], shape = [2, 1, 1, 1], selectedPrecision = ''fp32'',
            l_fallbackUsed = False, requestedPrecision = ''auto''\<rparr>"
  by code_simp


section \<open>Properties of the token layout\<close>


lemma forward_camera_step:
  assumes "forward_camera p cls cam cur = Inr (info, cur')"
  shows "startIdx info = cur + (if cls then 1 else 0) \<and> cur' = startIdx info + nPatches info
         \<and> camName info = fst cam"
  using assms
  by (auto simp: forward_camera_def Let_def split: prod.splits option.splits if_splits)

lemma inverse_camera_step:
  assumes "inverse_camera p cls cam cur = Inr (info, cur')"
  shows "startIdx info = cur + (if cls then 1 else 0) \<and> cur' = startIdx info + nPatches info
         \<and> camName info = fst cam"
  using assms
  by (auto simp: inverse_camera_def Let_def split: prod.splits option.splits if_splits)

lemma layout_loop_chain:
  assumes step: "\<And>cam cur info cur'. body cam cur = Inr (info, cur') \<Longrightarrow>
                   startIdx info = cur + c \<and> cur' = startIdx info + nPatches info
                   \<and> camName info = fst cam"
    and run: "layout_loop body cams infos0 cur0 = Inr (infos, cur)"
  shows "\<exists>new. infos = infos0 @ new \<and> map camName new = map fst cams \<and> chain c cur0 new cur"
  using run
proof (induction cams arbitrary: infos0 cur0)
  case Nil
  then show ?case by simp
next
  case (Cons cam cams)
  from Cons.prems obtain info cur1 where
    b: "body cam cur0 = Inr (info, cur1)"
    and r: "layout_loop body cams (infos0 @ [info]) cur1 = Inr (infos, cur)"
    by (auto split: sum.splits)
  from Cons.IH [OF r] obtain new where
    n: "infos = (infos0 @ [info]) @ new" "map camName new = map fst cams" "chain c cur1 new cur"
    by blast
  from step [OF b] n show ?case
    by (intro exI [of _ "info # new"]) simp
qed

lemma chain_total: "chain c s infos e \<Longrightarrow> e = s + sum_list (map nPatches infos) + c * length infos"
proof (induction infos arbitrary: s)
  case Nil
  then show ?case by simp
next
  case (Cons x xs)
  from Cons.prems [unfolded chain.simps]
  have c: "chain c (startIdx x + nPatches x) xs e" and s: "startIdx x = s + c"
    by blast+
  from Cons.IH [OF c] s show ?case by simp
qed

lemma chain_start:
  "chain c s infos e \<Longrightarrow> j < length infos \<Longrightarrow>
     startIdx (infos ! j) = s + sum_list (map nPatches (take j infos)) + c * (j + 1)"
proof (induction infos arbitrary: s j)
  case Nil
  then show ?case by simp
next
  case (Cons x xs)
  show ?case
  proof (cases j)
    case 0
    with Cons.prems show ?thesis by simp
  next
    case (Suc k)
    from Cons.prems(1) [unfolded chain.simps]
    have c: "chain c (startIdx x + nPatches x) xs e" and s: "startIdx x = s + c"
      by blast+
    from Suc Cons.prems(2) have k: "k < length xs" by simp
    from Cons.IH [OF c k] s Suc show ?thesis by simp
  qed
qed

lemma sum_take_mono:
  fixes ns :: "nat list"
  assumes "i < j" "j \<le> length ns"
  shows "sum_list (take i ns) + ns ! i \<le> sum_list (take j ns)"
proof -
  have "take j ns = take (Suc i) ns @ drop (Suc i) (take j ns)"
    using assms by (metis Suc_leI append_take_drop_id min.absorb2 take_take Suc_le_eq min.commute min_def)
  then have "sum_list (take (Suc i) ns) \<le> sum_list (take j ns)"
    by (metis le_add1 sum_list_append)
  moreover have "sum_list (take (Suc i) ns) = sum_list (take i ns) + ns ! i"
    using assms by (simp add: take_Suc_conv_app_nth)
  ultimately show ?thesis by simp
qed

lemma chain_disjoint:
  assumes "chain c s infos e" "i < j" "j < length infos"
  shows "startIdx (infos ! i) + nPatches (infos ! i) \<le> startIdx (infos ! j)"
proof -
  have i: "i < length infos" using assms by simp
  have a: "startIdx (infos ! i) = s + sum_list (map nPatches (take i infos)) + c * (i + 1)"
    by (rule chain_start [OF assms(1) i])
  have b: "startIdx (infos ! j) = s + sum_list (map nPatches (take j infos)) + c * (j + 1)"
    by (rule chain_start [OF assms(1) assms(3)])
  have "sum_list (take i (map nPatches infos)) + map nPatches infos ! i
        \<le> sum_list (take j (map nPatches infos))"
    using assms by (intro sum_take_mono) simp_all
  then have m: "sum_list (map nPatches (take i infos)) + nPatches (infos ! i)
        \<le> sum_list (map nPatches (take j infos))"
    using i by (simp add: take_map)
  have "c * (i + 1) \<le> c * (j + 1)" using assms(2) by simp
  with a b m show ?thesis by linarith
qed


lemma length_insert_by: "length (insert_by cmp x xs) = Suc (length xs)"
  by (induction xs) simp_all

lemma length_sort_by: "length (sort_by cmp xs) = length xs"
  unfolding sort_by_def by (induction xs) (simp_all add: length_insert_by)

lemma length_sorted_cameras:
  "length (sorted_cameras cmp names images origs) = length names"
  by (simp add: sorted_cameras_def length_sort_by)

lemma chain_props:
  assumes ch: "chain c 0 infos cur" and c: "c = (if cls then 1 else 0)"
  shows "(\<forall>j < length infos.
            startIdx (infos ! j)
            = sum_list (map nPatches (take j infos)) + (if cls then j + 1 else 0))
         \<and> (\<forall>i j. i < j \<and> j < length infos \<longrightarrow>
               startIdx (infos ! i) + nPatches (infos ! i) \<le> startIdx (infos ! j))
         \<and> (\<forall>j. Suc j < length infos \<longrightarrow>
               startIdx (infos ! Suc j)
               = startIdx (infos ! j) + nPatches (infos ! j) + (if cls then 1 else 0))
         \<and> cur = sum_list (map nPatches infos) + (if cls then length infos else 0)"
proof (intro conjI allI impI)
  fix j assume j: "j < length infos"
  from chain_start [OF ch j] c
  show "startIdx (infos ! j)
        = sum_list (map nPatches (take j infos)) + (if cls then j + 1 else 0)"
    by simp
next
  fix i j assume "i < j \<and> j < length infos"
  then show "startIdx (infos ! i) + nPatches (infos ! i) \<le> startIdx (infos ! j)"
    using chain_disjoint [OF ch] by blast
next
  fix j assume j: "Suc j < length infos"
  then have j': "j < length infos" by simp
  have "take (Suc j) infos = take j infos @ [infos ! j]"
    using j' by (simp add: take_Suc_conv_app_nth)
  then have "sum_list (map nPatches (take (Suc j) infos))
             = sum_list (map nPatches (take j infos)) + nPatches (infos ! j)"
    by simp
  with chain_start [OF ch j] chain_start [OF ch j'] c
  show "startIdx (infos ! Suc j)
        = startIdx (infos ! j) + nPatches (infos ! j) + (if cls then 1 else 0)"
    by simp
next
  from chain_total [OF ch] c
  show "cur = sum_list (map nPatches infos) + (if cls then length infos else 0)"
    by simp
qed

lemma layout_chain:
  assumes "forward_layout cmp names images origs p cls = Inr (infos, cur)
           \<or> inverse_layout cmp names images origs p cls = Inr (infos, cur)"
  shows "chain (if cls then 1 else 0) 0 infos cur \<and> length infos = length names
         \<and> map camName infos = map fst (sorted_cameras cmp names images origs)"
  using assms
proof
  assume a: "forward_layout cmp names images origs p cls = Inr (infos, cur)"
  have st: "\<And>cam cur info cur'. forward_camera p cls cam cur = Inr (info, cur') \<Longrightarrow>
                   startIdx info = cur + (if cls then 1 else 0)
                   \<and> cur' = startIdx info + nPatches info \<and> camName info = fst cam"
    by (rule forward_camera_step)
  from layout_loop_chain [where body = "forward_camera p cls" and c = "if cls then 1 else 0",
      OF st a [unfolded forward_layout_def]]
  obtain new where n: "infos = [] @ new"
    "map camName new = map fst (sorted_cameras cmp names images origs)"
    "chain (if cls then 1 else 0) 0 new cur"
    by blast
  from n(2) have "length new = length (sorted_cameras cmp names images origs)"
    by (metis length_map)
  with n show ?thesis by (simp add: length_sorted_cameras)
next
  assume a: "inverse_layout cmp names images origs p cls = Inr (infos, cur)"
  have st: "\<And>cam cur info cur'. inverse_camera p cls cam cur = Inr (info, cur') \<Longrightarrow>
                   startIdx info = cur + (if cls then 1 else 0)
                   \<and> cur' = startIdx info + nPatches info \<and> camName info = fst cam"
    by (rule inverse_camera_step)
  from layout_loop_chain [where body = "inverse_camera p cls" and c = "if cls then 1 else 0",
      OF st a [unfolded inverse_layout_def]]
  obtain new where n: "infos = [] @ new"
    "map camName new = map fst (sorted_cameras cmp names images origs)"
    "chain (if cls then 1 else 0) 0 new cur"
    by blast
  from n(2) have "length new = length (sorted_cameras cmp names images origs)"
    by (metis length_map)
  with n show ?thesis by (simp add: length_sorted_cameras)
qed

lemma buildPatchInfo_returns_infos:
  "forward_layout cmp names images origs p cls = Inr (infos, cur)
   \<Longrightarrow> forward_buildPatchInfo cmp names images origs p cls = Inr infos"
  "inverse_layout cmp names images origs p cls = Inr (infos, cur)
   \<Longrightarrow> inverse_buildPatchInfo cmp names images origs p cls = Inr infos"
  by (simp_all add: forward_buildPatchInfo_def inverse_buildPatchInfo_def)

text \<open>
  Claim C7. Whatever the camera list, the images, the patch size, the \<open>hasClsTokens\<close> flag
  and the comparator, when either builder returns \<open>infos\<close> (with the final cursor \<open>cur\<close>):
  there is one entry per camera; the range of entry \<open>j\<close> starts right after the ranges of
  the entries before it and after one CLS slot per camera up to and including \<open>j\<close> when
  \<open>hasClsTokens\<close>; consecutive ranges are contiguous up to that one CLS slot; the ranges
  \<open>[startIdx, startIdx + nPatches)\<close> of two different entries do not overlap; and the number
  of token indices consumed is \<open>sum(nPatches) + (numCameras if hasClsTokens else 0)\<close>.
  \<open>_buildPatchInfo\<close> returns these \<open>infos\<close>.
\<close>

theorem layout_contiguous:
  assumes "forward_layout localeCompare names images origs p cls = Inr (infos, cur)
           \<or> inverse_layout localeCompare names images origs p cls = Inr (infos, cur)"
  shows "length infos = length names
         \<and> (\<forall>j < length infos.
               startIdx (infos ! j)
               = sum_list (map nPatches (take j infos)) + (if cls then j + 1 else 0))
         \<and> (\<forall>i j. i < j \<and> j < length infos \<longrightarrow>
               startIdx (infos ! i) + nPatches (infos ! i) \<le> startIdx (infos ! j))
         \<and> (\<forall>j. Suc j < length infos \<longrightarrow>
               startIdx (infos ! Suc j)
               = startIdx (infos ! j) + nPatches (infos ! j) + (if cls then 1 else 0))
         \<and> cur = sum_list (map nPatches infos) + (if cls then length infos else 0)
         \<and> (forward_layout localeCompare names images origs p cls = Inr (infos, cur) \<longrightarrow>
              forward_buildPatchInfo localeCompare names images origs p cls = Inr infos)
         \<and> (inverse_layout localeCompare names images origs p cls = Inr (infos, cur) \<longrightarrow>
              inverse_buildPatchInfo localeCompare names images origs p cls = Inr infos)"
proof -
  from layout_chain [OF assms]
  have ch: "chain (if cls then 1 else 0) 0 infos cur" and len: "length infos = length names"
    by blast+
  from chain_props [OF ch refl] len buildPatchInfo_returns_infos [of localeCompare names images origs p cls infos cur]
  show ?thesis by (intro conjI) blast+
qed


lemma to_double_1: "to_double 1 = Fin 1"
  by code_simp

lemma jsdiv_self: "0 < n \<Longrightarrow> jsdiv (js_of_nat n) (js_of_nat n) = Fin 1"
  by (simp add: js_of_nat_def to_double_1)

text \<open>
  The theorem for two cameras \<open>b\<close> (28 by 28 pixels) and \<open>a\<close> (14 by 42 pixels), patch size
  14, with CLS tokens: \<open>a\<close> has the tokens 1..3, \<open>b\<close> the tokens 5..8, nine tokens in all.
\<close>

theorem layout_contiguous_witness:
  "forward_layout (\<lambda>x y. if x = y then 0 else if x = ''a'' then - 1 else 1) [''b'', ''a'']
     [\<lparr>naturalHeight = 28, naturalWidth = 28, height = 28, width = 28\<rparr>,
      \<lparr>naturalHeight = 14, naturalWidth = 42, height = 14, width = 42\<rparr>]
     [\<lparr>naturalHeight = 28, naturalWidth = 28, height = 28, width = 28\<rparr>,
      \<lparr>naturalHeight = 14, naturalWidth = 42, height = 14, width = 42\<rparr>] 14 True
   = Inr ([\<lparr>camName = ''a'', camIdx = 1, startIdx = 1, nPatches = 3, patchH = 1, patchW = 3,
            imgH = 14, imgW = 42, hScale = Fin 1, wScale = Fin 1\<rparr>,
           \<lparr>camName = ''b'', camIdx = 0, startIdx = 5, nPatches = 4, patchH = 2, patchW = 2,
            imgH = 28, imgW = 28, hScale = Fin 1, wScale = Fin 1\<rparr>], 9)
   \<and> inverse_layout (\<lambda>x y. if x = y then 0 else if x = ''a'' then - 1 else 1) [''b'', ''a'']
     [\<lparr>naturalHeight = 28, naturalWidth = 28, height = 28, width = 28\<rparr>,
      \<lparr>naturalHeight = 14, naturalWidth = 42, height = 14, width = 42\<rparr>]
     [\<lparr>naturalHeight = 28, naturalWidth = 28, height = 28, width = 28\<rparr>,
      \<lparr>naturalHeight = 14, naturalWidth = 42, height = 14, width = 42\<rparr>] 14 True
   = Inr ([\<lparr>camName = ''a'', camIdx = 1, startIdx = 1, nPatches = 3, patchH = 1, patchW = 3,
            imgH = 14, imgW = 42, hScale = Fin 1, wScale = Fin 1\<rparr>,
           \<lparr>camName = ''b'', camIdx = 0, startIdx = 5, nPatches = 4, patchH = 2, patchW = 2,
            imgH = 28, imgW = 28, hScale = Fin 1, wScale = Fin 1\<rparr>], 9)
   \<and> (9 :: nat) = sum_list [3, 4] + 2"
proof -
  let ?cmp = "\<lambda>x y :: string. if x = y then 0 else if x = ''a'' then - 1 else 1 :: int"
  let ?imgs = "[\<lparr>naturalHeight = 28, naturalWidth = 28, height = 28, width = 28\<rparr>,
      \<lparr>naturalHeight = 14, naturalWidth = 42, height = 14, width = 42\<rparr>]"
  let ?infos = "[\<lparr>camName = ''a'', camIdx = 1, startIdx = 1, nPatches = 3, patchH = 1, patchW = 3,
            imgH = 14, imgW = 42, hScale = Fin 1, wScale = Fin 1\<rparr>,
           \<lparr>camName = ''b'', camIdx = 0, startIdx = 5, nPatches = 4, patchH = 2, patchW = 2,
            imgH = 28, imgW = 28, hScale = Fin 1, wScale = Fin 1\<rparr>]"
  have s: "sorted_cameras ?cmp [''b'', ''a''] ?imgs ?imgs
           = [(''a'', 1, Some (?imgs ! 1), Some (?imgs ! 1)),
              (''b'', 0, Some (?imgs ! 0), Some (?imgs ! 0))]"
    by (simp add: sorted_cameras_def sort_by_def js_at_def upt_rec)
  have f: "forward_layout ?cmp [''b'', ''a''] ?imgs ?imgs 14 True = Inr (?infos, 9)"
    unfolding forward_layout_def s
    by (simp add: forward_camera_def first_nonzero_def Let_def jsdiv_self)
  have i: "inverse_layout ?cmp [''b'', ''a''] ?imgs ?imgs 14 True = Inr (?infos, 9)"
    unfolding inverse_layout_def s
    by (simp add: inverse_camera_def Let_def jsdiv_self)
  have df: "forward_layout ?cmp [''b'', ''a''] ?imgs ?imgs 14 True = Inr (?infos, 9)
            \<or> inverse_layout ?cmp [''b'', ''a''] ?imgs ?imgs 14 True = Inr (?infos, 9)"
    using f by (rule disjI1)
  have "(9 :: nat) = sum_list (map nPatches ?infos) + (if True then length ?infos else 0)"
    using df by (rule layout_contiguous [THEN conjunct2, THEN conjunct2, THEN conjunct2,
      THEN conjunct2, THEN conjunct1])
  then have "(9 :: nat) = sum_list [3, 4] + 2" by simp
  with f i show ?thesis by (intro conjI)
qed


text \<open>
  Claim C6 does not hold. The builders sort with \<open>a.name.localeCompare(b.name)\<close>, the
  collation of the host, not with the byte order of the names. Under any comparator that,
  like the collation of every current browser, puts \<open>a\<close> before \<open>B\<close>, the camera list
  \<open>["B", "a"]\<close>, which is already in ascending byte order (\<open>B\<close> is 0x42, \<open>a\<close> is 0x61), is
  laid out with \<open>a\<close> first: \<open>a\<close> gets the tokens from 1 and \<open>B\<close> the tokens from 4.
\<close>

theorem layout_order_not_byte_order:
  assumes "localeCompare ''a'' ''B'' < 0" and "0 < localeCompare ''B'' ''a''"
  shows "(\<exists>infos cur.
            forward_layout localeCompare [''B'', ''a'']
              [\<lparr>naturalHeight = 14, naturalWidth = 28, height = 14, width = 28\<rparr>,
               \<lparr>naturalHeight = 14, naturalWidth = 28, height = 14, width = 28\<rparr>]
              [\<lparr>naturalHeight = 14, naturalWidth = 28, height = 14, width = 28\<rparr>,
               \<lparr>naturalHeight = 14, naturalWidth = 28, height = 14, width = 28\<rparr>] 14 True
            = Inr (infos, cur)
            \<and> map camName infos = [''a'', ''B''] \<and> map startIdx infos = [1, 4])
         \<and> (\<exists>infos cur.
            inverse_layout localeCompare [''B'', ''a'']
              [\<lparr>naturalHeight = 14, naturalWidth = 28, height = 14, width = 28\<rparr>,
               \<lparr>naturalHeight = 14, naturalWidth = 28, height = 14, width = 28\<rparr>]
              [\<lparr>naturalHeight = 14, naturalWidth = 28, height = 14, width = 28\<rparr>,
               \<lparr>naturalHeight = 14, naturalWidth = 28, height = 14, width = 28\<rparr>] 14 True
            = Inr (infos, cur)
            \<and> map camName infos = [''a'', ''B''] \<and> map startIdx infos = [1, 4])
         \<and> sort [''B'', ''a''] = [''B'', ''a'']"
proof -
  let ?im = "\<lparr>naturalHeight = 14, naturalWidth = 28, height = 14, width = 28\<rparr>"
  have s: "sorted_cameras localeCompare [''B'', ''a''] [?im, ?im] [?im, ?im]
           = [(''a'', 1, Some ?im, Some ?im), (''B'', 0, Some ?im, Some ?im)]"
    using assms by (simp add: sorted_cameras_def sort_by_def js_at_def upt_rec)
  have b: "sort [''B'', ''a''] = [''B'', ''a'']"
    by code_simp
  have f: "\<exists>infos cur. forward_layout localeCompare [''B'', ''a''] [?im, ?im] [?im, ?im] 14 True
            = Inr (infos, cur)
            \<and> map camName infos = [''a'', ''B''] \<and> map startIdx infos = [1, 4]"
    unfolding forward_layout_def s
    by (simp add: forward_camera_def first_nonzero_def Let_def jsdiv_self)
  have i: "\<exists>infos cur. inverse_layout localeCompare [''B'', ''a''] [?im, ?im] [?im, ?im] 14 True
            = Inr (infos, cur)
            \<and> map camName infos = [''a'', ''B''] \<and> map startIdx infos = [1, 4]"
    unfolding inverse_layout_def s
    by (simp add: inverse_camera_def Let_def jsdiv_self)
  from f i b show ?thesis by (intro conjI)
qed


text \<open>
  The theorem at a comparator that puts \<open>a\<close> before \<open>B\<close>.
\<close>

theorem layout_order_not_byte_order_witness:
  "(\<exists>infos cur.
      forward_layout
        (\<lambda>x y. if x = ''a'' \<and> y = ''B'' then - 1 else if x = ''B'' \<and> y = ''a'' then 1 else 0)
        [''B'', ''a'']
        [\<lparr>naturalHeight = 14, naturalWidth = 28, height = 14, width = 28\<rparr>,
         \<lparr>naturalHeight = 14, naturalWidth = 28, height = 14, width = 28\<rparr>]
        [\<lparr>naturalHeight = 14, naturalWidth = 28, height = 14, width = 28\<rparr>,
         \<lparr>naturalHeight = 14, naturalWidth = 28, height = 14, width = 28\<rparr>] 14 True
      = Inr (infos, cur)
      \<and> map camName infos = [''a'', ''B''] \<and> map startIdx infos = [1, 4])"
proof -
  let ?cmp = "\<lambda>x y :: string. if x = ''a'' \<and> y = ''B'' then - 1
                             else if x = ''B'' \<and> y = ''a'' then 1 else 0 :: int"
  have a: "?cmp ''a'' ''B'' < 0" by simp
  have b: "0 < ?cmp ''B'' ''a''" by simp
  show ?thesis
    using a b by (rule layout_order_not_byte_order [THEN conjunct1])
qed


section \<open>Properties of the query engine\<close>

lemma make_visualizer_fields:
  "attnWeightsFlat (make_visualizer flat shp names g p cls infos) = flat"
  "attnWeightsShape (make_visualizer flat shp names g p cls infos) = shp"
  "gridSize (make_visualizer flat shp names g p cls infos) = g"
  "nQueries (make_visualizer flat shp names g p cls infos) = g * g"
  "nHeads (make_visualizer flat shp names g p cls infos) = fst (snd shp)"
  by (simp_all add: make_visualizer_def split: prod.splits)

lemma or_default_pos: "0 < d \<Longrightarrow> 0 < or_default v d"
  by (simp add: or_default_def split: option.splits)

lemma ForwardAttentionVisualizer_fields:
  assumes "ForwardAttentionVisualizer cmp flat images names opts = Inr vis"
    and "opt_attnWeightsShape opts = Some shp"
  shows "attnWeightsFlat vis = flat" "attnWeightsShape vis = shp" "nHeads vis = fst (snd shp)"
  using assms
  by (auto simp: ForwardAttentionVisualizer_def Let_def make_visualizer_fields split: sum.splits)

lemma InverseAttentionVisualizer_fields:
  assumes "InverseAttentionVisualizer cmp flat images names opts = Inr vis"
  shows "opt_attnWeightsShape opts = Some shp \<Longrightarrow> attnWeightsFlat vis = flat"
    "opt_attnWeightsShape opts = Some shp \<Longrightarrow> attnWeightsShape vis = shp"
    "opt_attnWeightsShape opts = Some shp \<Longrightarrow> nHeads vis = fst (snd shp)"
    "nQueries vis = gridSize vis * gridSize vis" "0 < gridSize vis"
  using assms
  by (auto simp: InverseAttentionVisualizer_def Let_def make_visualizer_fields or_default_pos
      split: sum.splits)

lemma getAttnFlat_same_tensor:
  assumes "attnWeightsFlat a = attnWeightsFlat b" "attnWeightsShape a = attnWeightsShape b"
  shows "getAttnFlat a bb h q k = getAttnFlat b bb h q k"
  using assms by (simp add: getAttnFlat_def)

lemma forward_patch_loop_mean:
  "forward_patch_loop vis q info True hi idxs out =
     Inr (fold (\<lambda>i out. out[i := fround (jsdiv
              (fold (\<lambda>h sum. jsadd sum (to_number (getAttnFlat vis 0 h q (startIdx info + i))))
                 [0..<nHeads vis] (Fin 0))
              (js_of_nat (nHeads vis)))]) idxs out)"
  by (induction idxs arbitrary: out) (simp_all add: Let_def)

lemma forward_mean_nth:
  assumes "nameToInfo vis cam = Some info" "i < nPatches info"
  shows "\<exists>out. getCameraPatchAttentionForQuery vis q cam True hi = Inr out
           \<and> length out = nPatches info
           \<and> out ! i = fround (jsdiv
              (fold (\<lambda>h sum. jsadd sum (to_number (getAttnFlat vis 0 h q (startIdx info + i))))
                 [0..<nHeads vis] (Fin 0))
              (js_of_nat (nHeads vis)))"
proof -
  let ?V = "\<lambda>i. fround (jsdiv
              (fold (\<lambda>h sum. jsadd sum (to_number (getAttnFlat vis 0 h q (startIdx info + i))))
                 [0..<nHeads vis] (Fin 0))
              (js_of_nat (nHeads vis)))"
  let ?out = "fold (\<lambda>i out. out[i := ?V i]) [0..<nPatches info] (replicate (nPatches info) (Fin 0))"
  have w: "writes ?V 0 (0 + nPatches info * 1) (replicate (nPatches info) (Fin 0)) ?out"
  proof (rule fold_writes)
    fix j out
    show "writes ?V (0 + j * 1) (0 + Suc j * 1) out (out[j := ?V j])"
      using writes_single [of ?V j out] by simp
  qed
  have "getCameraPatchAttentionForQuery vis q cam True hi = Inr ?out"
    by (simp add: getCameraPatchAttentionForQuery_def assms(1) forward_patch_loop_mean)
  moreover have "length ?out = nPatches info" using w by (simp add: writes_def)
  moreover have "?out ! i = ?V i" using w assms(2) by (simp add: writes_def)
  ultimately show ?thesis by blast
qed


lemma inverse_patchAttn_mean:
  "inverse_patchAttn vis ks True hi =
     Inr (map (\<lambda>q. map (\<lambda>kIdx. Some (jsdiv
              (fold (\<lambda>h sum. jsadd sum (to_number (getAttnFlat vis 0 h q kIdx)))
                 [0..<nHeads vis] (Fin 0))
              (js_of_nat (nHeads vis)))) ks) [0..<nQueries vis])"
  by (simp add: inverse_patchAttn_def Let_def)

lemma bevMap_nth:
  assumes g: "0 < g" and q: "q < g * g" and len: "length bevAttn = g * g"
  shows "map (\<lambda>y. map (\<lambda>x. let qIdx = y * g + x in js_at bevAttn qIdx) [0..<g]) [0..<g]
           ! (q div g) ! (q mod g) = Some (bevAttn ! q)"
proof -
  have y: "q div g < g" using q g by (simp add: less_mult_imp_div_less)
  have x: "q mod g < g" using g by simp
  have "q div g * g + q mod g = q" by simp
  with x y q len show ?thesis by (simp add: js_at_def Let_def)
qed

text \<open>
  Claim C8, amended. Take a forward and an inverse visualizer built over the same flat
  tensor and shape, a camera \<open>cam\<close> of the forward visualizer, a patch offset \<open>i\<close> below its
  \<open>nPatches\<close> and a query \<open>q\<close> below \<open>nQueries\<close>. With \<open>meanHeads\<close>, both paths read the same
  tensor elements and average them over the heads in the same way: the value \<open>v\<close> that
  \<open>getInverseAttention([cam.startIdx + i])\<close> computes for the query \<open>q\<close> (its \<open>patchAttn[q][0]\<close>)
  is this head mean as a double, and the cell of \<open>q\<close> in the returned map is \<open>0 + v\<close>. The
  forward value \<open>getCameraPatchAttentionForQuery(q, cam)[i]\<close> is an element of a
  \<open>Float32Array\<close>: it is \<open>v\<close> rounded to binary32, \<open>Math.fround(v)\<close>.
\<close>

theorem forward_is_rounded_inverse:
  assumes fv: "ForwardAttentionVisualizer cmpF flat imagesF namesF optsF = Inr fv"
    and iv: "InverseAttentionVisualizer cmpI flat imagesI namesI optsI = Inr iv"
    and sf: "opt_attnWeightsShape optsF = Some shp"
    and si: "opt_attnWeightsShape optsI = Some shp"
    and cam: "nameToInfo fv cam = Some info"
    and q: "q < nQueries iv"
    and i: "i < nPatches info"
  shows "\<exists>out patchAttn bevMap v.
           getCameraPatchAttentionForQuery fv q cam True hiF = Inr out
           \<and> inverse_patchAttn iv [startIdx info + i] True hiI = Inr patchAttn
           \<and> getInverseAttention iv [startIdx info + i] True hiI ''sum'' = Inr bevMap
           \<and> patchAttn ! q = [Some v]
           \<and> bevMap ! (q div gridSize iv) ! (q mod gridSize iv) = Some (jsadd (Fin 0) v)
           \<and> out ! i = fround v"
proof -
  let ?k = "startIdx info + i"
  let ?m = "\<lambda>vis q. jsdiv
              (fold (\<lambda>h sum. jsadd sum (to_number (getAttnFlat vis 0 h q ?k)))
                 [0..<nHeads vis] (Fin 0))
              (js_of_nat (nHeads vis))"
  note F = ForwardAttentionVisualizer_fields [OF fv sf]
  note I = InverseAttentionVisualizer_fields [OF iv]
  have same: "getAttnFlat fv 0 h q ?k = getAttnFlat iv 0 h q ?k" for h
    by (rule getAttnFlat_same_tensor) (simp_all add: F I(1,2) [OF si])
  have heads: "nHeads fv = nHeads iv" by (simp add: F I(3) [OF si])
  have m: "?m fv q = ?m iv q" by (simp add: same heads)
  from forward_mean_nth [OF cam i, of q hiF] obtain out where
    out: "getCameraPatchAttentionForQuery fv q cam True hiF = Inr out"
    and oi: "out ! i = fround (?m fv q)" by blast
  let ?pa = "map (\<lambda>q. [Some (?m iv q)]) [0..<nQueries iv]"
  have pa: "inverse_patchAttn iv [?k] True hiI = Inr ?pa"
    by (simp add: inverse_patchAttn_mean)
  have paq: "?pa ! q = [Some (?m iv q)]" using q by simp
  let ?bev = "map (\<lambda>qAttn. foldl (\<lambda>sum val. jsadd sum (to_number val)) (Fin 0) qAttn) ?pa"
  have bev: "inverse_bevAttn ''sum'' ?pa = Inr ?bev"
    by (simp add: inverse_bevAttn_def)
  have bevq: "?bev ! q = jsadd (Fin 0) (?m iv q)"
    using q by (simp add: to_number_def)
  let ?map = "map (\<lambda>y. map (\<lambda>x. let qIdx = y * gridSize iv + x in js_at ?bev qIdx)
                               [0..<gridSize iv]) [0..<gridSize iv]"
  have gi: "getInverseAttention iv [?k] True hiI ''sum'' = Inr ?map"
    by (simp add: getInverseAttention_def pa bev)
  have len: "length ?bev = gridSize iv * gridSize iv" by (simp add: I(4))
  have q': "q < gridSize iv * gridSize iv" using q by (simp add: I(4))
  have cell: "?map ! (q div gridSize iv) ! (q mod gridSize iv) = Some (?bev ! q)"
    by (rule bevMap_nth [OF I(5) q' len])
  show ?thesis
    using out pa gi paq cell bevq oi m
    by (intro exI [of _ out] exI [of _ ?pa] exI [of _ ?map] exI [of _ "?m iv q"]) simp
qed



lemma third_roundings:
  "to_double (1 / 3) = Fin (6004799503160661 / 18014398509481984)"
  "to_float32 (6004799503160661 / 18014398509481984) = Fin (11184811 / 33554432)"
  "to_double (6004799503160661 / 18014398509481984) = Fin (6004799503160661 / 18014398509481984)"
  by code_simp+

lemma inverse_patchAttn_empty:
  assumes "meanHeads \<or> headIdx \<noteq> None"
  shows "inverse_patchAttn vis [] meanHeads headIdx = Inr (replicate (nQueries vis) [])"
  using assms
  by (auto simp: inverse_patchAttn_def Let_def map_replicate_const)

lemma bevMap_const:
  assumes "n = g * g"
  shows "map (\<lambda>y. map (\<lambda>x. let qIdx = y * g + x in js_at (replicate n c) qIdx) [0..<g]) [0..<g]
         = replicate g (replicate g (Some c))"
proof -
  have cell: "js_at (replicate n c) (y * g + x) = Some c" if "y < g" "x < g" for x y
  proof -
    have "y * g + x < Suc y * g" using that by simp
    also have "\<dots> \<le> g * g" using that by (intro mult_le_mono1) simp
    finally show ?thesis by (simp add: js_at_def assms)
  qed
  have row: "map (\<lambda>x. let qIdx = y * g + x in js_at (replicate n c) qIdx) [0..<g]
             = replicate g (Some c)" if "y < g" for y
  proof -
    have "map (\<lambda>x. let qIdx = y * g + x in js_at (replicate n c) qIdx) [0..<g]
          = map (\<lambda>x. Some c) [0..<g]"
      using cell [OF that] by (intro map_cong) (simp_all add: Let_def)
    then show ?thesis by (simp add: map_replicate_const)
  qed
  have "map (\<lambda>y. map (\<lambda>x. let qIdx = y * g + x in js_at (replicate n c) qIdx) [0..<g]) [0..<g]
        = map (\<lambda>y. replicate g (Some c)) [0..<g]"
    using row by (intro map_cong) simp_all
  then show ?thesis by (simp add: map_replicate_const)
qed

lemma getInverseAttention_empty_map:
  assumes q: "nQueries vis = gridSize vis * gridSize vis"
    and h: "meanHeads \<or> headIdx \<noteq> None"
  shows "getInverseAttention vis [] meanHeads headIdx aggregation =
           (if aggregation = ''sum''
            then Inr (replicate (gridSize vis) (replicate (gridSize vis) (Some (Fin 0))))
            else if aggregation = ''max''
            then Inr (replicate (gridSize vis) (replicate (gridSize vis) (Some NInf)))
            else if aggregation = ''mean''
            then Inr (replicate (gridSize vis) (replicate (gridSize vis) (Some NaN)))
            else Inl (UnknownAggregation aggregation))"
proof -
  have m: "jsdiv (Fin 0) (js_of_nat 0) = NaN" by (simp add: js_of_nat_def)
  show ?thesis
    unfolding getInverseAttention_def inverse_patchAttn_empty [OF h] inverse_bevAttn_def
    by (simp add: bevMap_const [OF q, unfolded Let_def] m)
qed

text \<open>
  Claim C3, amended. \<open>getInverseAttention\<close> does not inspect \<open>patchIndices\<close>: on a visualizer
  built by the constructor, with an empty list and a valid head selection (\<open>meanHeads\<close>, or a
  \<open>headIdx\<close>), it raises nothing and returns the \<open>gridSize\<close> by \<open>gridSize\<close> map whose every
  cell is 0 for \<open>sum\<close>, \<open>-Infinity\<close> for \<open>max\<close> (\<open>Math.max()\<close> of no arguments) and NaN for
  \<open>mean\<close> (\<open>0 / 0\<close>); only an unknown aggregation name is an error.
\<close>

theorem getInverseAttention_empty:
  assumes c: "InverseAttentionVisualizer localeCompare flat images names opts = Inr vis"
    and h: "meanHeads \<or> headIdx \<noteq> None"
  shows "getInverseAttention vis [] meanHeads headIdx aggregation =
           (if aggregation = ''sum''
            then Inr (replicate (gridSize vis) (replicate (gridSize vis) (Some (Fin 0))))
            else if aggregation = ''max''
            then Inr (replicate (gridSize vis) (replicate (gridSize vis) (Some NInf)))
            else if aggregation = ''mean''
            then Inr (replicate (gridSize vis) (replicate (gridSize vis) (Some NaN)))
            else Inl (UnknownAggregation aggregation))"
  by (rule getInverseAttention_empty_map [OF InverseAttentionVisualizer_fields(4) [OF c] h])


lemma example_visualizers:
  "ForwardAttentionVisualizer (\<lambda>x y. 0) [Fin 1, Fin 0, Fin 0]
     [\<lparr>naturalHeight = 14, naturalWidth = 14, height = 14, width = 14\<rparr>] [''cam'']
     \<lparr>opt_attnWeightsShape = Some (1, 3, 1, 1), opt_originalImages = None,
      opt_gridSize = Some 1, opt_patchSize = None, opt_hasClsTokens = Some False\<rparr>
   = Inr (make_visualizer [Fin 1, Fin 0, Fin 0] (1, 3, 1, 1) [''cam''] 1 14 False
       [\<lparr>camName = ''cam'', camIdx = 0, startIdx = 0, nPatches = 1, patchH = 1,
         patchW = 1, imgH = 14, imgW = 14, hScale = Fin 1, wScale = Fin 1\<rparr>])"
  "InverseAttentionVisualizer (\<lambda>x y. 0) [Fin 1, Fin 0, Fin 0]
     [\<lparr>naturalHeight = 14, naturalWidth = 14, height = 14, width = 14\<rparr>] [''cam'']
     \<lparr>opt_attnWeightsShape = Some (1, 3, 1, 1), opt_originalImages = None,
      opt_gridSize = Some 1, opt_patchSize = None, opt_hasClsTokens = Some False\<rparr>
   = Inr (make_visualizer [Fin 1, Fin 0, Fin 0] (1, 3, 1, 1) [''cam''] 1 14 False
       [\<lparr>camName = ''cam'', camIdx = 0, startIdx = 0, nPatches = 1, patchH = 1,
         patchW = 1, imgH = 14, imgW = 14, hScale = Fin 1, wScale = Fin 1\<rparr>])"
  "InverseAttentionVisualizer (\<lambda>x y. 0) [Fin 0, Fin 0, Fin 0, Fin 0]
     [\<lparr>naturalHeight = 14, naturalWidth = 14, height = 14, width = 14\<rparr>] [''cam'']
     \<lparr>opt_attnWeightsShape = Some (1, 1, 4, 1), opt_originalImages = None,
      opt_gridSize = Some 2, opt_patchSize = None, opt_hasClsTokens = Some False\<rparr>
   = Inr (make_visualizer [Fin 0, Fin 0, Fin 0, Fin 0] (1, 1, 4, 1) [''cam''] 2 14 False
       [\<lparr>camName = ''cam'', camIdx = 0, startIdx = 0, nPatches = 1, patchH = 1,
         patchW = 1, imgH = 14, imgW = 14, hScale = Fin 1, wScale = Fin 1\<rparr>])"
  by (simp_all add: ForwardAttentionVisualizer_def forward_buildPatchInfo_def forward_layout_def
      InverseAttentionVisualizer_def inverse_buildPatchInfo_def inverse_layout_def
      sorted_cameras_def sort_by_def js_at_def forward_camera_def inverse_camera_def
      first_nonzero_def or_default_def Let_def jsdiv_self)

text \<open>
  Claim C8, as stated, fails: the two values are not equal. For three heads with the
  weights 1, 0, 0 on the one key of the one query, the forward path returns
  \<open>Math.fround(1/3) = 11184811 / 2^25 = 0.3333333432674408\<close>, and the inverse path computes
  and returns the double \<open>1/3 = 6004799503160661 / 2^54 = 0.3333333333333333\<close>.
\<close>

theorem forward_differs_from_inverse_counterexample:
  "ForwardAttentionVisualizer (\<lambda>x y. 0) [Fin 1, Fin 0, Fin 0]
     [\<lparr>naturalHeight = 14, naturalWidth = 14, height = 14, width = 14\<rparr>] [''cam'']
     \<lparr>opt_attnWeightsShape = Some (1, 3, 1, 1), opt_originalImages = None,
      opt_gridSize = Some 1, opt_patchSize = None, opt_hasClsTokens = Some False\<rparr>
   = Inr (make_visualizer [Fin 1, Fin 0, Fin 0] (1, 3, 1, 1) [''cam''] 1 14 False
             [\<lparr>camName = ''cam'', camIdx = 0, startIdx = 0, nPatches = 1, patchH = 1,
               patchW = 1, imgH = 14, imgW = 14, hScale = Fin 1, wScale = Fin 1\<rparr>])
   \<and> InverseAttentionVisualizer (\<lambda>x y. 0) [Fin 1, Fin 0, Fin 0]
     [\<lparr>naturalHeight = 14, naturalWidth = 14, height = 14, width = 14\<rparr>] [''cam'']
     \<lparr>opt_attnWeightsShape = Some (1, 3, 1, 1), opt_originalImages = None,
      opt_gridSize = Some 1, opt_patchSize = None, opt_hasClsTokens = Some False\<rparr>
   = Inr (make_visualizer [Fin 1, Fin 0, Fin 0] (1, 3, 1, 1) [''cam''] 1 14 False
             [\<lparr>camName = ''cam'', camIdx = 0, startIdx = 0, nPatches = 1, patchH = 1,
               patchW = 1, imgH = 14, imgW = 14, hScale = Fin 1, wScale = Fin 1\<rparr>])
   \<and> getCameraPatchAttentionForQuery (make_visualizer [Fin 1, Fin 0, Fin 0] (1, 3, 1, 1) [''cam''] 1 14 False
             [\<lparr>camName = ''cam'', camIdx = 0, startIdx = 0, nPatches = 1, patchH = 1,
               patchW = 1, imgH = 14, imgW = 14, hScale = Fin 1, wScale = Fin 1\<rparr>]) 0 ''cam'' True None
     = Inr [Fin (11184811 / 33554432)]
   \<and> inverse_patchAttn (make_visualizer [Fin 1, Fin 0, Fin 0] (1, 3, 1, 1) [''cam''] 1 14 False
             [\<lparr>camName = ''cam'', camIdx = 0, startIdx = 0, nPatches = 1, patchH = 1,
               patchW = 1, imgH = 14, imgW = 14, hScale = Fin 1, wScale = Fin 1\<rparr>]) [0 + 0] True None
     = Inr [[Some (Fin (6004799503160661 / 18014398509481984))]]
   \<and> getInverseAttention (make_visualizer [Fin 1, Fin 0, Fin 0] (1, 3, 1, 1) [''cam''] 1 14 False
             [\<lparr>camName = ''cam'', camIdx = 0, startIdx = 0, nPatches = 1, patchH = 1,
               patchW = 1, imgH = 14, imgW = 14, hScale = Fin 1, wScale = Fin 1\<rparr>]) [0 + 0] True None ''sum''
     = Inr [[Some (Fin (6004799503160661 / 18014398509481984))]]
   \<and> Fin (11184811 / 33554432) \<noteq> Fin (6004799503160661 / 18014398509481984)"
proof -
  let ?flat = "[Fin 1, Fin 0, Fin 0]"
  let ?im = "\<lparr>naturalHeight = 14, naturalWidth = 14, height = 14, width = 14\<rparr>"
  let ?opts = "\<lparr>opt_attnWeightsShape = Some (1, 3, 1, 1), opt_originalImages = None,
            opt_gridSize = Some 1, opt_patchSize = None, opt_hasClsTokens = Some False\<rparr>"
  let ?info = "\<lparr>camName = ''cam'', camIdx = 0, startIdx = 0, nPatches = 1, patchH = 1,
      patchW = 1, imgH = 14, imgW = 14, hScale = Fin 1, wScale = Fin 1\<rparr>"
  define vis where "vis = make_visualizer ?flat (1, 3, 1, 1) [''cam''] 1 14 False [?info]"
  have fv: "ForwardAttentionVisualizer (\<lambda>x y. 0) ?flat [?im] [''cam''] ?opts = Inr vis"
    unfolding vis_def by (rule example_visualizers(1))
  have iv: "InverseAttentionVisualizer (\<lambda>x y. 0) ?flat [?im] [''cam''] ?opts = Inr vis"
    unfolding vis_def by (rule example_visualizers(2))
  have nh: "nHeads vis = 3" and nq: "nQueries vis = 1" and gs: "gridSize vis = 1"
    unfolding vis_def by (simp_all add: make_visualizer_fields)
  have ni: "nameToInfo vis ''cam'' = Some ?info"
    unfolding vis_def by (simp add: make_visualizer_def)
  have gaf: "getAttnFlat vis 0 h 0 0 = js_at ?flat h" for h
    unfolding vis_def by (simp add: getAttnFlat_def make_visualizer_fields)
  have sum: "fold (\<lambda>h sum. jsadd sum (to_number (getAttnFlat vis 0 h 0 0))) [0..<3] (Fin 0)
             = Fin 1"
    by (simp add: gaf upt_rec js_at_def to_number_def to_double_1)
  have mean: "jsdiv (Fin 1) (js_of_nat 3) = Fin (6004799503160661 / 18014398509481984)"
    by (simp add: js_of_nat_def third_roundings)
  have a: "getCameraPatchAttentionForQuery vis 0 ''cam'' True None
           = Inr [Fin (11184811 / 33554432)]"
    by (simp add: getCameraPatchAttentionForQuery_def ni nh sum mean third_roundings)
  have b: "inverse_patchAttn vis [0 + 0] True None
           = Inr [[Some (Fin (6004799503160661 / 18014398509481984))]]"
    by (simp add: inverse_patchAttn_def nq nh sum mean)
  have c: "getInverseAttention vis [0 + 0] True None ''sum''
           = Inr [[Some (Fin (6004799503160661 / 18014398509481984))]]"
    by (simp add: getInverseAttention_def b [simplified] inverse_bevAttn_def gs js_at_def
        to_number_def third_roundings)
  have d: "Fin (11184811 / 33554432) \<noteq> Fin (6004799503160661 / 18014398509481984)"
    by simp
  show ?thesis
    unfolding vis_def [symmetric] by (intro conjI fv iv a b c d)
qed


text \<open>
  The theorem at the same two visualizers, for the query 0 and the patch 0 of the camera.
\<close>

theorem forward_is_rounded_inverse_witness:
  "\<exists>fv iv out patchAttn bevMap v.
     ForwardAttentionVisualizer (\<lambda>x y. 0) [Fin 1, Fin 0, Fin 0]
       [\<lparr>naturalHeight = 14, naturalWidth = 14, height = 14, width = 14\<rparr>] [''cam'']
       \<lparr>opt_attnWeightsShape = Some (1, 3, 1, 1), opt_originalImages = None,
        opt_gridSize = Some 1, opt_patchSize = None, opt_hasClsTokens = Some False\<rparr> = Inr fv
     \<and> InverseAttentionVisualizer (\<lambda>x y. 0) [Fin 1, Fin 0, Fin 0]
       [\<lparr>naturalHeight = 14, naturalWidth = 14, height = 14, width = 14\<rparr>] [''cam'']
       \<lparr>opt_attnWeightsShape = Some (1, 3, 1, 1), opt_originalImages = None,
        opt_gridSize = Some 1, opt_patchSize = None, opt_hasClsTokens = Some False\<rparr> = Inr iv
     \<and> getCameraPatchAttentionForQuery fv 0 ''cam'' True None = Inr out
     \<and> inverse_patchAttn iv [0 + 0] True None = Inr patchAttn
     \<and> getInverseAttention iv [0 + 0] True None ''sum'' = Inr bevMap
     \<and> patchAttn ! 0 = [Some v]
     \<and> bevMap ! (0 div gridSize iv) ! (0 mod gridSize iv) = Some (jsadd (Fin 0) v)
     \<and> out ! 0 = fround v"
proof -
  let ?flat = "[Fin 1, Fin 0, Fin 0]"
  let ?im = "\<lparr>naturalHeight = 14, naturalWidth = 14, height = 14, width = 14\<rparr>"
  let ?opts = "\<lparr>opt_attnWeightsShape = Some (1, 3, 1, 1), opt_originalImages = None,
            opt_gridSize = Some 1, opt_patchSize = None, opt_hasClsTokens = Some False\<rparr>"
  let ?info = "\<lparr>camName = ''cam'', camIdx = 0, startIdx = 0, nPatches = 1, patchH = 1,
      patchW = 1, imgH = 14, imgW = 14, hScale = Fin 1, wScale = Fin 1\<rparr>"
  define vis where "vis = make_visualizer ?flat (1, 3, 1, 1) [''cam''] 1 14 False [?info]"
  have fv: "ForwardAttentionVisualizer (\<lambda>x y. 0) ?flat [?im] [''cam''] ?opts = Inr vis"
    unfolding vis_def by (rule example_visualizers(1))
  have iv: "InverseAttentionVisualizer (\<lambda>x y. 0) ?flat [?im] [''cam''] ?opts = Inr vis"
    unfolding vis_def by (rule example_visualizers(2))
  have s: "opt_attnWeightsShape ?opts = Some (1, 3, 1, 1)" by simp
  have ni: "nameToInfo vis ''cam'' = Some ?info"
    unfolding vis_def by (simp add: make_visualizer_def)
  have q: "0 < nQueries vis"
    unfolding vis_def by (simp add: make_visualizer_fields)
  have i: "0 < nPatches ?info" by simp
  have "\<exists>out patchAttn bevMap v.
           getCameraPatchAttentionForQuery vis 0 ''cam'' True None = Inr out
           \<and> inverse_patchAttn vis [startIdx ?info + 0] True None = Inr patchAttn
           \<and> getInverseAttention vis [startIdx ?info + 0] True None ''sum'' = Inr bevMap
           \<and> patchAttn ! 0 = [Some v]
           \<and> bevMap ! (0 div gridSize vis) ! (0 mod gridSize vis) = Some (jsadd (Fin 0) v)
           \<and> out ! 0 = fround v"
    using fv iv s s ni q i by (rule forward_is_rounded_inverse)
  then obtain out patchAttn bevMap v where
    "getCameraPatchAttentionForQuery vis 0 ''cam'' True None = Inr out
           \<and> inverse_patchAttn vis [0 + 0] True None = Inr patchAttn
           \<and> getInverseAttention vis [0 + 0] True None ''sum'' = Inr bevMap
           \<and> patchAttn ! 0 = [Some v]
           \<and> bevMap ! (0 div gridSize vis) ! (0 mod gridSize vis) = Some (jsadd (Fin 0) v)
           \<and> out ! 0 = fround v"
    by auto
  with fv iv show ?thesis by blast
qed

text \<open>
  Claim C3, as stated, fails: on a 2 by 2 grid, the empty selection with the aggregation
  \<open>sum\<close> returns the zero-filled map, not an error.
\<close>

theorem getInverseAttention_empty_counterexample:
  "InverseAttentionVisualizer (\<lambda>x y. 0) [Fin 0, Fin 0, Fin 0, Fin 0]
     [\<lparr>naturalHeight = 14, naturalWidth = 14, height = 14, width = 14\<rparr>] [''cam'']
     \<lparr>opt_attnWeightsShape = Some (1, 1, 4, 1), opt_originalImages = None,
      opt_gridSize = Some 2, opt_patchSize = None, opt_hasClsTokens = Some False\<rparr>
   = Inr (make_visualizer [Fin 0, Fin 0, Fin 0, Fin 0] (1, 1, 4, 1) [''cam''] 2 14 False
             [\<lparr>camName = ''cam'', camIdx = 0, startIdx = 0, nPatches = 1, patchH = 1,
               patchW = 1, imgH = 14, imgW = 14, hScale = Fin 1, wScale = Fin 1\<rparr>])
   \<and> getInverseAttention (make_visualizer [Fin 0, Fin 0, Fin 0, Fin 0] (1, 1, 4, 1) [''cam''] 2 14 False
             [\<lparr>camName = ''cam'', camIdx = 0, startIdx = 0, nPatches = 1, patchH = 1,
               patchW = 1, imgH = 14, imgW = 14, hScale = Fin 1, wScale = Fin 1\<rparr>]) [] True None ''sum''
     = Inr [[Some (Fin 0), Some (Fin 0)], [Some (Fin 0), Some (Fin 0)]]"
proof -
  define vis where "vis = make_visualizer [Fin 0, Fin 0, Fin 0, Fin 0] (1, 1, 4, 1) [''cam''] 2 14
      False [\<lparr>camName = ''cam'', camIdx = 0, startIdx = 0, nPatches = 1, patchH = 1,
         patchW = 1, imgH = 14, imgW = 14, hScale = Fin 1, wScale = Fin 1\<rparr>]"
  have iv: "InverseAttentionVisualizer (\<lambda>x y. 0) [Fin 0, Fin 0, Fin 0, Fin 0]
           [\<lparr>naturalHeight = 14, naturalWidth = 14, height = 14, width = 14\<rparr>] [''cam'']
           \<lparr>opt_attnWeightsShape = Some (1, 1, 4, 1), opt_originalImages = None,
            opt_gridSize = Some 2, opt_patchSize = None, opt_hasClsTokens = Some False\<rparr>
            = Inr vis"
    unfolding vis_def by (rule example_visualizers(3))
  have g: "gridSize vis = 2" and q: "nQueries vis = gridSize vis * gridSize vis"
    unfolding vis_def by (simp_all add: make_visualizer_fields)
  have "getInverseAttention vis [] True None ''sum''
        = Inr (replicate (gridSize vis) (replicate (gridSize vis) (Some (Fin 0))))"
    using getInverseAttention_empty_map [OF q, of True None "''sum''"] by simp
  then have "getInverseAttention vis [] True None ''sum''
        = Inr [[Some (Fin 0), Some (Fin 0)], [Some (Fin 0), Some (Fin 0)]]"
    by (simp add: g numeral_2_eq_2)
  with iv show ?thesis unfolding vis_def [symmetric] by (intro conjI)
qed

text \<open>
  The theorem on the same visualizer, for the head 0 and the aggregation \<open>max\<close>.
\<close>

theorem getInverseAttention_empty_witness:
  "\<exists>vis.
     InverseAttentionVisualizer (\<lambda>x y. 0) [Fin 0, Fin 0, Fin 0, Fin 0]
       [\<lparr>naturalHeight = 14, naturalWidth = 14, height = 14, width = 14\<rparr>] [''cam'']
       \<lparr>opt_attnWeightsShape = Some (1, 1, 4, 1), opt_originalImages = None,
        opt_gridSize = Some 2, opt_patchSize = None, opt_hasClsTokens = Some False\<rparr> = Inr vis
     \<and> getInverseAttention vis [] False (Some 0) ''max''
         = Inr (replicate (gridSize vis) (replicate (gridSize vis) (Some NInf)))"
proof -
  define vis where "vis = make_visualizer [Fin 0, Fin 0, Fin 0, Fin 0] (1, 1, 4, 1) [''cam''] 2 14
      False [\<lparr>camName = ''cam'', camIdx = 0, startIdx = 0, nPatches = 1, patchH = 1,
         patchW = 1, imgH = 14, imgW = 14, hScale = Fin 1, wScale = Fin 1\<rparr>]"
  have iv: "InverseAttentionVisualizer (\<lambda>x y. 0) [Fin 0, Fin 0, Fin 0, Fin 0]
           [\<lparr>naturalHeight = 14, naturalWidth = 14, height = 14, width = 14\<rparr>] [''cam'']
           \<lparr>opt_attnWeightsShape = Some (1, 1, 4, 1), opt_originalImages = None,
            opt_gridSize = Some 2, opt_patchSize = None, opt_hasClsTokens = Some False\<rparr>
            = Inr vis"
    unfolding vis_def by (rule example_visualizers(3))
  have h: "False \<or> Some (0::nat) \<noteq> None" by simp
  have "getInverseAttention vis [] False (Some 0) ''max'' =
           (if ''max'' = ''sum''
            then Inr (replicate (gridSize vis) (replicate (gridSize vis) (Some (Fin 0))))
            else if ''max'' = ''max''
            then Inr (replicate (gridSize vis) (replicate (gridSize vis) (Some NInf)))
            else if ''max'' = ''mean''
            then Inr (replicate (gridSize vis) (replicate (gridSize vis) (Some NaN)))
            else Inl (UnknownAggregation ''max''))"
    using iv h by (rule getInverseAttention_empty)
  then have "getInverseAttention vis [] False (Some 0) ''max''
         = Inr (replicate (gridSize vis) (replicate (gridSize vis) (Some NInf)))"
    by simp
  with iv show ?thesis by blast
qed


end
